theory Spec2Isabelle
  imports Main "HOL-Library.AList"
begin

section \<open>Errors and model instances\<close>

text \<open>
  The exceptions the modelled paths can raise. \<open>IntegrityError\<close> and \<open>DataError\<close> are
  the database's answers to a violated \<open>unique=True\<close> and \<open>max_length\<close>;
  \<open>ValidationError\<close> is what a field validator raises; \<open>AlreadyExists\<close> and
  \<open>DdlFailure\<close> come from the namespace store; \<open>AttributeError\<close> is Python's answer to
  reading an attribute that was never set; \<open>ValueError\<close> is Django deleting an instance
  without a primary key; \<open>MultipleObjectsReturned\<close> is \<open>get()\<close> finding more than one
  row.
\<close>

datatype error =
    IntegrityError
  | DataError
  | ValidationError
  | AlreadyExists
  | DdlFailure
  | AttributeError
  | ValueError
  | MultipleObjectsReturned

text \<open>
  Both mixins inherit \<open>models.Model\<close>: an instance carries a primary key that is
  \<open>None\<close> until the row has been inserted.
\<close>

record model =
  pk :: "nat option"

section \<open>Domains (\<open>DomainMixin\<close>)\<close>

text \<open>
  \<open>domain = CharField(max_length=253, unique=True)\<close>, \<open>tenant = ForeignKey(...)\<close>
  (held as the tenant's primary key), \<open>is_primary = BooleanField(default=True)\<close>.
  Whether the tenant row behind the foreign key exists is the database's referential
  check; lines 150 to 154 do not depend on it, and the table of domains is kept apart
  from the table of tenants.
\<close>

record domain_obj = model +
  domain :: string
  tenant :: nat
  is_primary :: bool

text \<open>The stored columns of one row of the domain table; the table is keyed by the
  primary key.\<close>

record domain_row =
  row_domain :: string
  row_tenant :: nat
  row_is_primary :: bool

type_synonym domain_table = "(nat \<times> domain_row) list"

text \<open>\<open>Domain(domain=d, tenant=t)\<close>: the caller leaves \<open>is_primary\<close> unset, so the
  field default of line 146 applies.\<close>

definition is_primary_default :: bool where
  "is_primary_default = True"

definition new_domain :: "string \<Rightarrow> nat \<Rightarrow> domain_obj" where
  "new_domain d t = \<lparr>pk = None, domain = d, tenant = t, is_primary = is_primary_default\<rparr>"

text \<open>
  The queryset of line 150,
  \<open>objects.filter(tenant=self.tenant, is_primary=True).exclude(pk=self.pk)\<close>,
  as a predicate on rows. With \<open>self.pk = None\<close> the exclusion removes nothing.
\<close>

definition in_domain_list :: "domain_obj \<Rightarrow> nat \<Rightarrow> domain_row \<Rightarrow> bool" where
  "in_domain_list self k r \<longleftrightarrow>
     row_tenant r = tenant self \<and> row_is_primary r \<and> Some k \<noteq> pk self"

definition domain_list :: "domain_obj \<Rightarrow> domain_table \<Rightarrow> (nat \<times> domain_row) list" where
  "domain_list self db = filter (\<lambda>(k, r). in_domain_list self k r) db"

text \<open>\<open>domain_list.exists()\<close>\<close>

definition qs_exists :: "domain_obj \<Rightarrow> domain_table \<Rightarrow> bool" where
  "qs_exists self db \<longleftrightarrow> domain_list self db \<noteq> []"

text \<open>\<open>domain_list.update(is_primary=False)\<close>: one UPDATE over the rows the queryset
  selects.\<close>

definition qs_update :: "domain_obj \<Rightarrow> domain_table \<Rightarrow> domain_table" where
  "qs_update self db =
     AList.map_ran (\<lambda>k r. if in_domain_list self k r then r\<lparr>row_is_primary := False\<rparr> else r) db"

text \<open>The storage engine hands out a key that no row uses; an instance that has a
  key keeps it.\<close>

definition fresh_pk :: "(nat \<times> 'a) list \<Rightarrow> nat" where
  "fresh_pk db = Suc (foldr max (map fst db) 0)"

definition assign_pk :: "nat option \<Rightarrow> (nat \<times> 'a) list \<Rightarrow> nat" where
  "assign_pk p db = (case p of None \<Rightarrow> fresh_pk db | Some k \<Rightarrow> k)"

definition to_row :: "domain_obj \<Rightarrow> domain_row" where
  "to_row self =
     \<lparr>row_domain = domain self, row_tenant = tenant self, row_is_primary = is_primary self\<rparr>"

text \<open>
  \<open>super().save()\<close> of line 154, Django's \<open>Model.save\<close>: an instance without a key is
  inserted under a new key, one with a key overwrites the row of that key or is
  inserted under it. The database refuses a value longer than \<open>max_length=253\<close> and a
  second row with the same \<open>domain\<close> (\<open>unique=True\<close>).
\<close>

definition domain_model_save ::
  "domain_obj \<Rightarrow> domain_table \<Rightarrow> domain_table \<times> (error + domain_obj)" where
  "domain_model_save self db =
     (if length (domain self) > 253 then (db, Inl DataError)
      else if list_ex (\<lambda>(k, r). row_domain r = domain self \<and> Some k \<noteq> pk self) db
        then (db, Inl IntegrityError)
      else (let k = assign_pk (pk self) db
            in (AList.update k (to_row self) db, Inr (self\<lparr>pk := Some k\<rparr>))))"

text \<open>Lines 150 to 154, the body of \<open>DomainMixin.save\<close> without its decorator.\<close>

definition domain_save_body ::
  "domain_obj \<Rightarrow> domain_table \<Rightarrow> domain_table \<times> (error + domain_obj)" where
  "domain_save_body self db =
     (let self1 = self\<lparr>is_primary := is_primary self \<or> \<not> qs_exists self db\<rparr>;
          db1 = (if is_primary self1 then qs_update self1 db else db)
      in domain_model_save self1 db1)"

text \<open>\<open>@transaction.atomic\<close>: when the body raises, every write it made is rolled
  back and the exception goes on to the caller.\<close>

definition transaction_atomic ::
  "('s \<Rightarrow> 's \<times> (error + 'a)) \<Rightarrow> 's \<Rightarrow> 's \<times> (error + 'a)" where
  "transaction_atomic body s =
     (case body s of
        (s', Inl e) \<Rightarrow> (s, Inl e)
      | (s', Inr v) \<Rightarrow> (s', Inr v))"

definition domain_save ::
  "domain_obj \<Rightarrow> domain_table \<Rightarrow> domain_table \<times> (error + domain_obj)" where
  "domain_save self = transaction_atomic (domain_save_body self)"

text \<open>A run of \<open>save\<close> calls, each on the table the previous one left.\<close>

fun domain_save_all :: "domain_obj list \<Rightarrow> domain_table \<Rightarrow> domain_table" where
  "domain_save_all [] db = db"
| "domain_save_all (self # rest) db = domain_save_all rest (fst (domain_save self db))"

text \<open>The domains of a tenant, and those of them marked primary.\<close>

definition domains_of :: "nat \<Rightarrow> domain_table \<Rightarrow> (nat \<times> domain_row) list" where
  "domains_of t db = filter (\<lambda>(k, r). row_tenant r = t) db"

definition primaries_of :: "nat \<Rightarrow> domain_table \<Rightarrow> (nat \<times> domain_row) list" where
  "primaries_of t db = filter (\<lambda>(k, r). row_tenant r = t \<and> row_is_primary r) db"

text \<open>\<open>TenantMixin.get_primary_domain\<close>, lines 129 to 133:
  \<open>self.domains.get(is_primary=True)\<close> returns the one primary domain, \<open>None\<close> when
  there is none (\<open>DoesNotExist\<close> is caught), and lets \<open>MultipleObjectsReturned\<close>
  through.\<close>

definition get_primary_domain :: "nat \<Rightarrow> domain_table \<Rightarrow> error + (nat \<times> domain_row) option" where
  "get_primary_domain t db =
     (case primaries_of t db of
        [] \<Rightarrow> Inr None
      | [d] \<Rightarrow> Inr (Some d)
      | d # d' # ds \<Rightarrow> Inl MultipleObjectsReturned)"

text \<open>A table has one row per key.\<close>

definition table_ok :: "(nat \<times> 'a) list \<Rightarrow> bool" where
  "table_ok db \<longleftrightarrow> distinct (map fst db)"

text \<open>
  A \<open>save\<close> reassigns a domain of tenant \<open>t\<close> when it rewrites a stored row of
  \<open>t\<close> with another tenant in the \<open>tenant\<close> column.
\<close>

definition reassigns :: "nat \<Rightarrow> domain_obj \<Rightarrow> domain_table \<Rightarrow> bool" where
  "reassigns t self db \<longleftrightarrow>
     (case pk self of
        None \<Rightarrow> False
      | Some k \<Rightarrow> (case map_of db k of
                    None \<Rightarrow> False
                  | Some r \<Rightarrow> row_tenant r = t \<and> tenant self \<noteq> t))"

fun never_reassigns :: "nat \<Rightarrow> domain_obj list \<Rightarrow> domain_table \<Rightarrow> bool" where
  "never_reassigns t [] db = True"
| "never_reassigns t (self # rest) db =
     (\<not> reassigns t self db \<and> never_reassigns t rest (fst (domain_save self db)))"

subsection \<open>What one \<open>save\<close> stores\<close>

text \<open>The key under which the row ends up, the value of \<open>is_primary\<close> computed on
  line 151, the row written by line 154 and what line 153 makes of another row.\<close>

definition saved_pk :: "domain_obj \<Rightarrow> domain_table \<Rightarrow> nat" where
  "saved_pk self db = assign_pk (pk self) db"

definition effective :: "domain_obj \<Rightarrow> domain_table \<Rightarrow> bool" where
  "effective self db \<longleftrightarrow> is_primary self \<or> \<not> qs_exists self db"

definition stored_row :: "domain_obj \<Rightarrow> domain_table \<Rightarrow> domain_row" where
  "stored_row self db =
     \<lparr>row_domain = domain self, row_tenant = tenant self, row_is_primary = effective self db\<rparr>"

definition demoted :: "domain_obj \<Rightarrow> domain_table \<Rightarrow> domain_row \<Rightarrow> domain_row" where
  "demoted self db r =
     (if effective self db \<and> row_tenant r = tenant self then r\<lparr>row_is_primary := False\<rparr> else r)"

text \<open>The two halves of the invariant, read off the table as a map: no two primary
  rows of a tenant, and a primary row whenever the tenant has a row.\<close>

definition at_most_one_primary :: "nat \<Rightarrow> (nat \<rightharpoonup> domain_row) \<Rightarrow> bool" where
  "at_most_one_primary t m \<longleftrightarrow>
     (\<forall>k1 k2 r1 r2. m k1 = Some r1 \<and> row_tenant r1 = t \<and> row_is_primary r1 \<and>
        m k2 = Some r2 \<and> row_tenant r2 = t \<and> row_is_primary r2 \<longrightarrow> k1 = k2)"

definition some_primary :: "nat \<Rightarrow> (nat \<rightharpoonup> domain_row) \<Rightarrow> bool" where
  "some_primary t m \<longleftrightarrow>
     ((\<exists>k r. m k = Some r \<and> row_tenant r = t) \<longrightarrow>
      (\<exists>k r. m k = Some r \<and> row_tenant r = t \<and> row_is_primary r))"

section \<open>Tenants (\<open>TenantMixin\<close>)\<close>

text \<open>
  \<open>schema_name = CharField(max_length=63, unique=True, validators=[check_schema_name])\<close>;
  the class attributes \<open>auto_create_schema\<close> (default \<open>True\<close>) and
  \<open>auto_drop_schema\<close> (default \<open>False\<close>) are read through \<open>self\<close>, so each
  instance carries the values of its class; \<open>previous_schema\<close> is the attribute that
  \<open>__enter__\<close> sets and that does not exist before.
\<close>

record tenant_obj = model +
  schema_name :: string
  auto_create_schema :: bool
  auto_drop_schema :: bool
  previous_schema :: "string option"

subsection \<open>The connection and the scoped activation\<close>

record connection =
  conn_schema_name :: string

text \<open>Modelled from the spec: \<open>connection.set_schema\<close> (the database backend is not
  among the sources); section 4.2, Activate sets the namespace applied to what follows
  on this connection.\<close>

definition set_schema :: "string \<Rightarrow> connection \<Rightarrow> connection" where
  "set_schema name c = c\<lparr>conn_schema_name := name\<rparr>"

text \<open>Modelled from the spec: \<open>connection.set_schema_to_public\<close>; section 4.2,
  Deactivate resets to the public namespace.\<close>

definition set_schema_to_public :: "connection \<Rightarrow> connection" where
  "set_schema_to_public c = c\<lparr>conn_schema_name := ''public''\<rparr>"

definition activate :: "tenant_obj \<Rightarrow> connection \<Rightarrow> connection" where
  "activate self c = set_schema (schema_name self) c"

definition deactivate :: "connection \<Rightarrow> connection" where
  "deactivate c = set_schema_to_public c"

text \<open>What a \<open>with\<close> block on a tenant can reach: the tenant object and the
  connection.\<close>

type_synonym session = "tenant_obj \<times> connection"

text \<open>\<open>__enter__\<close>, lines 46 and 47.\<close>

definition tenant_enter :: "session \<Rightarrow> session" where
  "tenant_enter s =
     (case s of (self, c) \<Rightarrow>
        (let self1 = self\<lparr>previous_schema := Some (conn_schema_name c)\<rparr>
         in (self1, activate self1 c)))"

text \<open>\<open>__exit__\<close>, line 50. It returns \<open>None\<close>, so an exception of the body is never
  swallowed.\<close>

definition tenant_exit :: "session \<Rightarrow> session \<times> (error + unit)" where
  "tenant_exit s =
     (case s of (self, c) \<Rightarrow>
        (case previous_schema self of
           None \<Rightarrow> ((self, c), Inl AttributeError)
         | Some p \<Rightarrow> ((self, set_schema p c), Inr ())))"

text \<open>
  Python's \<open>with tenant: body\<close>: enter, run the body, call \<open>__exit__\<close> whether the body
  returned or raised, and hand on the body's result or exception (an exception of
  \<open>__exit__\<close> itself takes its place).
\<close>

definition with_tenant ::
  "(session \<Rightarrow> session \<times> (error + 'a)) \<Rightarrow> session \<Rightarrow> session \<times> (error + 'a)" where
  "with_tenant body s =
     (case body (tenant_enter s) of (s1, r) \<Rightarrow>
        (case tenant_exit s1 of
           (s2, Inl e') \<Rightarrow> (s2, Inl e')
         | (s2, Inr u) \<Rightarrow> (s2, r)))"

text \<open>An empty body, \<open>pass\<close>.\<close>

definition pass :: "session \<Rightarrow> session \<times> (error + unit)" where
  "pass s = (s, Inr ())"

subsection \<open>The world of the lifecycle: tenant table, namespaces, what happened\<close>

datatype event_kind = PostSync | NeedsSync | PreDrop

text \<open>One entry per write, DDL statement and publication, in the order they happen.
  A publication keeps the snapshot sent and what each receiver answered.\<close>

datatype action =
    RowSaved nat string
  | RowDeleted nat
  | DdlCreate string
  | DdlDrop string
  | Published event_kind tenant_obj "error option list"

record world =
  tenants :: "(nat \<times> string) list"
  schemas :: "string list"
  trace :: "action list"

text \<open>How the creation DDL ends: it completes, it aborts before the namespace appears,
  or it aborts after the namespace appeared (a partially created namespace).\<close>

datatype ddl_outcome = Completes | FailsBeforeCreate error | FailsAfterCreate error

text \<open>What surrounds a call: the fate of the creation DDL and the receivers connected
  to each signal. A receiver answers \<open>None\<close> when it returns and \<open>Some e\<close> when it
  raises.\<close>

record env =
  create_outcome :: ddl_outcome
  receivers :: "event_kind \<Rightarrow> (tenant_obj \<Rightarrow> error option) list"

type_synonym 'a op = "world \<Rightarrow> world \<times> (error + 'a)"

text \<open>Statements in sequence, \<open>raise\<close>, and \<open>try: ... except Exception: ...\<close>.\<close>

definition return_op :: "'a \<Rightarrow> 'a op" where
  "return_op v w = (w, Inr v)"

definition raise_op :: "error \<Rightarrow> 'a op" where
  "raise_op e w = (w, Inl e)"

definition bind_op :: "'a op \<Rightarrow> ('a \<Rightarrow> 'b op) \<Rightarrow> 'b op" where
  "bind_op m f w = (case m w of (w', Inl e) \<Rightarrow> (w', Inl e) | (w', Inr v) \<Rightarrow> f v w')"

definition try_except :: "'a op \<Rightarrow> (error \<Rightarrow> 'a op) \<Rightarrow> 'a op" where
  "try_except m handler w =
     (case m w of (w', Inl e) \<Rightarrow> handler e w' | (w', Inr v) \<Rightarrow> (w', Inr v))"

subsection \<open>Namespace store and signals (\<open>utils\<close>, \<open>signals\<close>)\<close>

text \<open>Modelled from the spec: \<open>utils.schema_exists\<close>; section 4.1, Exists queries the
  catalog and never mutates.\<close>

definition schema_exists :: "string \<Rightarrow> world \<Rightarrow> bool" where
  "schema_exists name w \<longleftrightarrow> name \<in> set (schemas w)"

text \<open>Modelled from the spec: \<open>utils.create_schema\<close>; section 4.1, Create issues the
  creation DDL; asked to fail on an existing namespace it returns \<open>AlreadyExists\<close>
  without side effects, otherwise an existing namespace is success. The second
  argument of the call in \<open>TenantMixin.create_schema\<close> is read as that flag. The DDL
  itself can fail (section 4.3), with or without a partial namespace left behind.\<close>

definition create_schema ::
  "ddl_outcome \<Rightarrow> string \<Rightarrow> bool \<Rightarrow> bool \<Rightarrow> nat \<Rightarrow> bool op" where
  "create_schema outcome name check_if_exists sync_schema verbosity w =
     (if check_if_exists \<and> schema_exists name w then (w, Inl AlreadyExists)
      else (case outcome of
              Completes \<Rightarrow>
                (w\<lparr>schemas := List.insert name (schemas w),
                   trace := trace w @ [DdlCreate name]\<rparr>, Inr True)
            | FailsBeforeCreate e \<Rightarrow>
                (w\<lparr>trace := trace w @ [DdlCreate name]\<rparr>, Inl e)
            | FailsAfterCreate e \<Rightarrow>
                (w\<lparr>schemas := List.insert name (schemas w),
                   trace := trace w @ [DdlCreate name]\<rparr>, Inl e)))"

text \<open>Modelled from the spec: \<open>utils.drop_schema\<close>; section 4.1, Drop is a cascading
  drop, and dropping a namespace that does not exist is success.\<close>

definition drop_schema :: "string \<Rightarrow> unit op" where
  "drop_schema name w =
     (w\<lparr>schemas := removeAll name (schemas w), trace := trace w @ [DdlDrop name]\<rparr>, Inr ())"

text \<open>Modelled from the spec: the \<open>send\<close> of the three signals of \<open>signals\<close>; section
  4.5, publication is synchronous, reaches the receivers connected at call time, and
  the publisher does not fail because of a receiver's error.\<close>

definition send :: "env \<Rightarrow> event_kind \<Rightarrow> tenant_obj \<Rightarrow> unit op" where
  "send en kind snapshot w =
     (w\<lparr>trace := trace w @ [Published kind snapshot (map (\<lambda>h. h snapshot) (receivers en kind))]\<rparr>,
      Inr ())"

text \<open>Modelled from the spec: \<open>check_schema_name\<close> (in the database backend); section 6,
  a namespace name must not begin with \<open>pg_\<close>, must not be reserved, must be letters,
  digits and underscores starting with a letter or an underscore, and must not be
  longer than 63 bytes. The spec does not list the reserved names: they are a
  parameter.\<close>

text \<open>Modelled from the spec: the letters of the identifier grammar of section 6,
  read as the ASCII letters.\<close>

definition is_letter :: "char \<Rightarrow> bool" where
  "is_letter c \<longleftrightarrow>
     (let n = (of_char c :: nat) in (65 \<le> n \<and> n \<le> 90) \<or> (97 \<le> n \<and> n \<le> 122))"

text \<open>Modelled from the spec: the digits of the identifier grammar of section 6.\<close>

definition is_digit :: "char \<Rightarrow> bool" where
  "is_digit c \<longleftrightarrow> (let n = (of_char c :: nat) in 48 \<le> n \<and> n \<le> 57)"

text \<open>Modelled from the spec: section 6, letters, digits and underscores, starting
  with a letter or an underscore.\<close>

definition is_valid_identifier :: "string \<Rightarrow> bool" where
  "is_valid_identifier name \<longleftrightarrow>
     (case name of
        [] \<Rightarrow> False
      | c # cs \<Rightarrow> (is_letter c \<or> c = CHR ''_'')
                 \<and> list_all (\<lambda>x. is_letter x \<or> is_digit x \<or> x = CHR ''_'') cs)"

text \<open>Modelled from the spec: the four conditions of section 6 together.\<close>

definition is_valid_schema_name :: "string list \<Rightarrow> string \<Rightarrow> bool" where
  "is_valid_schema_name reserved name \<longleftrightarrow>
     is_valid_identifier name \<and> take 3 name \<noteq> ''pg_'' \<and> name \<notin> set reserved
       \<and> length name \<le> 63"

text \<open>Modelled from the spec: \<open>check_schema_name\<close> raises a validation error on a
  name that breaks the rule.\<close>

definition check_schema_name :: "string list \<Rightarrow> string \<Rightarrow> error + unit" where
  "check_schema_name reserved name =
     (if is_valid_schema_name reserved name then Inr () else Inl ValidationError)"

subsection \<open>Validation and the table (Django's \<open>Model\<close>)\<close>

text \<open>\<open>max_length=63\<close> adds Django's length validator to the field's own.\<close>

definition max_length_validator :: "nat \<Rightarrow> string \<Rightarrow> error + unit" where
  "max_length_validator n v = (if length v \<le> n then Inr () else Inl ValidationError)"

definition schema_name_validators :: "string list \<Rightarrow> (string \<Rightarrow> error + unit) list" where
  "schema_name_validators reserved = [check_schema_name reserved, max_length_validator 63]"

definition run_validators :: "('v \<Rightarrow> error + unit) list \<Rightarrow> 'v \<Rightarrow> error + unit" where
  "run_validators vs v = (if list_all (\<lambda>f. f v = Inr ()) vs then Inr () else Inl ValidationError)"

text \<open>\<open>full_clean()\<close>, the step of a form or of a caller that runs the field
  validators; it reads the instance and writes nothing.\<close>

definition tenant_full_clean :: "string list \<Rightarrow> tenant_obj \<Rightarrow> tenant_obj op" where
  "tenant_full_clean reserved self w =
     (case run_validators (schema_name_validators reserved) (schema_name self) of
        Inl e \<Rightarrow> (w, Inl e)
      | Inr u \<Rightarrow> (w, Inr self))"

text \<open>
  \<open>super().save()\<close> of line 75, Django's \<open>Model.save\<close>. It runs no validator. The
  database refuses a name longer than the column and a second row with the same
  \<open>schema_name\<close>; otherwise the row is inserted (or overwritten, for an instance that
  has a key) and the instance knows its key.
\<close>

definition tenant_model_save :: "tenant_obj \<Rightarrow> tenant_obj op" where
  "tenant_model_save self w =
     (if length (schema_name self) > 63 then (w, Inl DataError)
      else if list_ex (\<lambda>(k, n). n = schema_name self \<and> Some k \<noteq> pk self) (tenants w)
        then (w, Inl IntegrityError)
      else (let k = assign_pk (pk self) (tenants w)
            in (w\<lparr>tenants := AList.update k (schema_name self) (tenants w),
                  trace := trace w @ [RowSaved k (schema_name self)]\<rparr>,
                Inr (self\<lparr>pk := Some k\<rparr>))))"

text \<open>\<open>super().delete()\<close> of line 105, Django's \<open>Model.delete\<close>: the row goes and the
  instance loses its key; an instance without a key cannot be deleted. (The cascade
  to the tenant's domains, \<open>on_delete=CASCADE\<close> of line 143, acts on the other
  table.)\<close>

definition tenant_model_delete :: "tenant_obj \<Rightarrow> tenant_obj op" where
  "tenant_model_delete self w =
     (case pk self of
        None \<Rightarrow> (w, Inl ValueError)
      | Some k \<Rightarrow>
          (w\<lparr>tenants := AList.delete k (tenants w), trace := trace w @ [RowDeleted k]\<rparr>,
           Inr (self\<lparr>pk := None\<rparr>)))"

subsection \<open>\<open>TenantMixin\<close>: create, drop, delete, save\<close>

text \<open>Line 111: the snapshot sent with a signal is the instance itself.\<close>

definition serializable_fields :: "tenant_obj \<Rightarrow> tenant_obj" where
  "serializable_fields self = self"

text \<open>Line 117.\<close>

definition tenant_create_schema :: "env \<Rightarrow> tenant_obj \<Rightarrow> bool \<Rightarrow> bool \<Rightarrow> nat \<Rightarrow> bool op" where
  "tenant_create_schema en self check_if_exists sync_schema verbosity =
     create_schema (create_outcome en) (schema_name self) check_if_exists sync_schema verbosity"

text \<open>Line 123.\<close>

definition tenant_drop_schema :: "tenant_obj \<Rightarrow> unit op" where
  "tenant_drop_schema self = drop_schema (schema_name self)"

text \<open>Lines 102 to 105.\<close>

definition tenant_delete :: "env \<Rightarrow> bool \<Rightarrow> tenant_obj \<Rightarrow> tenant_obj op" where
  "tenant_delete en force_drop self =
     bind_op
       (if force_drop \<or> auto_drop_schema self
        then bind_op (send en PreDrop (serializable_fields self)) (\<lambda>u. tenant_drop_schema self)
        else return_op ())
       (\<lambda>u. tenant_model_delete self)"

text \<open>Lines 78 to 84 and 90 to 96: the two \<open>try\<close> blocks share their body.\<close>

definition create_and_announce :: "env \<Rightarrow> nat \<Rightarrow> tenant_obj \<Rightarrow> tenant_obj op" where
  "create_and_announce en verbosity self =
     bind_op (tenant_create_schema en self True True verbosity)
       (\<lambda>created. bind_op (send en PostSync (serializable_fields self))
          (\<lambda>u. return_op self))"

text \<open>Lines 74 to 96. \<open>is_new\<close> is read before \<open>super().save()\<close> gives the instance
  its key.\<close>

definition tenant_save :: "env \<Rightarrow> nat \<Rightarrow> tenant_obj \<Rightarrow> tenant_obj op" where
  "tenant_save en verbosity self =
     (let is_new = (pk self = None)
      in bind_op (tenant_model_save self)
           (\<lambda>self1 w1.
              if is_new \<and> auto_create_schema self1 then
                try_except (create_and_announce en verbosity self1)
                  (\<lambda>e. bind_op (tenant_delete en True self1) (\<lambda>u. raise_op e)) w1
              else if is_new then
                bind_op (send en NeedsSync (serializable_fields self1)) (\<lambda>u. return_op self1) w1
              else if \<not> is_new \<and> auto_create_schema self1
                      \<and> \<not> schema_exists (schema_name self1) w1 then
                try_except (create_and_announce en verbosity self1)
                  (\<lambda>e. bind_op (tenant_drop_schema self1) (\<lambda>u. raise_op e)) w1
              else return_op self1 w1))"

text \<open>An action of the compensating cleanup: a namespace dropped or a tenant row
  deleted.\<close>

fun is_cleanup :: "action \<Rightarrow> bool" where
  "is_cleanup (DdlDrop name) = True"
| "is_cleanup (RowDeleted k) = True"
| "is_cleanup a = False"

fun is_ddl :: "action \<Rightarrow> bool" where
  "is_ddl (DdlCreate name) = True"
| "is_ddl (DdlDrop name) = True"
| "is_ddl a = False"

section \<open>Properties of the domain write path\<close>

lemma fresh_pk_ge: "k \<in> set (map fst db) \<Longrightarrow> k \<le> foldr max (map fst db) (0::nat)"
  by (induction db) (auto simp: le_max_iff_disj)

lemma fresh_pk_notin: "fresh_pk db \<notin> fst ` set db"
  using fresh_pk_ge [of "fresh_pk db" db] by (auto simp: fresh_pk_def)

lemma table_ok_update: "table_ok db \<Longrightarrow> table_ok (AList.update k v db)"
  by (simp add: table_ok_def distinct_update)

lemma table_ok_qs_update: "table_ok db \<Longrightarrow> table_ok (qs_update self db)"
  by (simp add: table_ok_def qs_update_def distinct_map_ran)

lemma map_of_qs_update:
  "map_of (qs_update self db) k =
     map_option (\<lambda>r. if in_domain_list self k r then r\<lparr>row_is_primary := False\<rparr> else r) (map_of db k)"
  by (simp add: qs_update_def map_ran_conv)

lemma in_table_iff: "table_ok db \<Longrightarrow> (k, r) \<in> set db \<longleftrightarrow> map_of db k = Some r"
  by (simp add: table_ok_def)

lemma domain_model_save_ok:
  assumes "domain_model_save self db = (db', Inr self')"
  shows "db' = AList.update (saved_pk self db) (to_row self) db"
    and "self' = self\<lparr>pk := Some (saved_pk self db)\<rparr>"
  using assms
  by (auto simp: domain_model_save_def saved_pk_def Let_def split: if_splits)

lemma saved_pk_cases:
  "(pk self = None \<and> saved_pk self db \<notin> fst ` set db) \<or> pk self = Some (saved_pk self db)"
  using fresh_pk_notin [of db] by (cases "pk self") (simp_all add: saved_pk_def assign_pk_def)

lemma domain_model_save_err:
  "domain_model_save self db = (db', Inl e) \<Longrightarrow> db' = db"
  by (auto simp: domain_model_save_def Let_def split: if_splits option.splits)

lemma length_filter_le1:
  assumes "distinct xs"
  shows "length (filter P xs) \<le> 1 \<longleftrightarrow> (\<forall>x\<in>set xs. \<forall>y\<in>set xs. P x \<and> P y \<longrightarrow> x = y)"
proof -
  have "length (filter P xs) = card {x \<in> set xs. P x}"
    using assms by (simp add: distinct_length_filter Int_def conj_commute)
  moreover have "finite {x \<in> set xs. P x}" by simp
  ultimately show ?thesis
    by (auto simp: card_le_Suc0_iff_eq)
qed

lemma primaries_le1:
  assumes "table_ok db"
  shows "length (primaries_of t db) \<le> 1 \<longleftrightarrow> at_most_one_primary t (map_of db)"
proof -
  have d: "distinct db" using assms by (simp add: table_ok_def distinct_map)
  have m: "\<And>k r. (k, r) \<in> set db \<longleftrightarrow> map_of db k = Some r"
    using assms by (simp add: table_ok_def)
  have "length (primaries_of t db) \<le> 1 \<longleftrightarrow>
     (\<forall>x\<in>set db. \<forall>y\<in>set db. (case x of (k, r) \<Rightarrow> row_tenant r = t \<and> row_is_primary r) \<and>
         (case y of (k, r) \<Rightarrow> row_tenant r = t \<and> row_is_primary r) \<longrightarrow> x = y)"
    unfolding primaries_of_def by (rule length_filter_le1 [OF d])
  also have "\<dots> \<longleftrightarrow> at_most_one_primary t (map_of db)"
  proof
    assume a: "\<forall>x\<in>set db. \<forall>y\<in>set db. (case x of (k, r) \<Rightarrow> row_tenant r = t \<and> row_is_primary r) \<and>
         (case y of (k, r) \<Rightarrow> row_tenant r = t \<and> row_is_primary r) \<longrightarrow> x = y"
    show "at_most_one_primary t (map_of db)"
      unfolding at_most_one_primary_def
    proof (intro allI impI)
      fix k1 k2 r1 r2
      assume h: "map_of db k1 = Some r1 \<and> row_tenant r1 = t \<and> row_is_primary r1 \<and>
        map_of db k2 = Some r2 \<and> row_tenant r2 = t \<and> row_is_primary r2"
      then have "(k1, r1) \<in> set db" "(k2, r2) \<in> set db" by (simp_all add: m)
      with a h have "(k1, r1) = (k2, r2)" by fastforce
      then show "k1 = k2" by simp
    qed
  next
    assume p: "at_most_one_primary t (map_of db)"
    show "\<forall>x\<in>set db. \<forall>y\<in>set db. (case x of (k, r) \<Rightarrow> row_tenant r = t \<and> row_is_primary r) \<and>
         (case y of (k, r) \<Rightarrow> row_tenant r = t \<and> row_is_primary r) \<longrightarrow> x = y"
    proof (intro ballI impI)
      fix x y
      assume x: "x \<in> set db" and y: "y \<in> set db"
        and h: "(case x of (k, r) \<Rightarrow> row_tenant r = t \<and> row_is_primary r) \<and>
         (case y of (k, r) \<Rightarrow> row_tenant r = t \<and> row_is_primary r)"
      obtain k1 r1 k2 r2 where e: "x = (k1, r1)" "y = (k2, r2)" by (cases x, cases y) auto
      have s: "map_of db k1 = Some r1" "map_of db k2 = Some r2"
        using x y e by (simp_all add: m)
      have "k1 = k2"
        using p [unfolded at_most_one_primary_def, rule_format, of k1 r1 k2 r2] s h e by simp
      with s have "r1 = r2" by simp
      with \<open>k1 = k2\<close> e show "x = y" by simp
    qed
  qed
  finally show ?thesis .
qed

lemma qs_exists_iff:
  assumes "table_ok db"
  shows "qs_exists self db \<longleftrightarrow> (\<exists>j r. map_of db j = Some r \<and> in_domain_list self j r)"
proof -
  have "qs_exists self db \<longleftrightarrow> (\<exists>x\<in>set db. case x of (k, r) \<Rightarrow> in_domain_list self k r)"
    by (simp add: qs_exists_def domain_list_def filter_empty_conv)
  also have "\<dots> \<longleftrightarrow> (\<exists>j r. (j, r) \<in> set db \<and> in_domain_list self j r)"
    by (simp add: Bex_def split_paired_Ex)
  finally show ?thesis using assms by (simp add: in_table_iff)
qed

lemma in_domain_list_upd [simp]:
  "in_domain_list (self\<lparr>is_primary := b\<rparr>) k r = in_domain_list self k r"
  by (simp add: in_domain_list_def)

lemma domain_save_unfold:
  assumes s: "domain_save self db = (db', Inr self')"
  shows "domain_model_save (self\<lparr>is_primary := effective self db\<rparr>)
           (if effective self db then qs_update self db else db) = (db', Inr self')"
proof -
  have q: "\<And>b. qs_update (self\<lparr>is_primary := b\<rparr>) db = qs_update self db"
    by (simp add: qs_update_def)
  obtain d r where b: "domain_save_body self db = (d, r)" by (cases "domain_save_body self db")
  with s have "d = db'" "r = Inr self'"
    by (auto simp: domain_save_def transaction_atomic_def split: sum.splits)
  with b show ?thesis
    by (auto simp: domain_save_body_def Let_def effective_def q)
qed

lemma map_of_after_update:
  "map_of (if effective self db then qs_update self db else db) j =
     map_option (\<lambda>r. if effective self db \<and> in_domain_list self j r
                      then r\<lparr>row_is_primary := False\<rparr> else r) (map_of db j)"
  by (cases "map_of db j") (simp_all add: map_of_qs_update)

lemma keys_qs_update: "map fst (qs_update self db) = map fst db"
  by (induction db) (auto simp: qs_update_def map_ran_def)

lemma keys_after_update:
  "fst ` set (if effective self db then qs_update self db else db) = fst ` set db"
  by (simp add: qs_update_def dom_map_ran)

lemma domain_save_ok:
  assumes ok: "table_ok db" and s: "domain_save self db = (db', Inr self')"
  defines "k \<equiv> saved_pk self db"
  shows "table_ok db'"
    and "self' = self\<lparr>is_primary := effective self db, pk := Some k\<rparr>"
    and "(pk self = None \<and> map_of db k = None) \<or> pk self = Some k"
    and "map_of db' k = Some (stored_row self db)"
    and "j \<noteq> k \<Longrightarrow> map_of db' j = map_option (demoted self db) (map_of db j)"
proof -
  let ?self1 = "self\<lparr>is_primary := effective self db\<rparr>"
  let ?db1 = "if effective self db then qs_update self db else db"
  note b = domain_save_unfold [OF s]
  have sp: "saved_pk ?self1 ?db1 = saved_pk self ?db1" by (simp add: saved_pk_def)
  have ok1: "table_ok ?db1" using ok by (simp add: table_ok_qs_update)
  have c: "(pk self = None \<and> saved_pk self ?db1 \<notin> fst ` set db) \<or> pk self = Some (saved_pk self ?db1)"
    using saved_pk_cases [of self ?db1] by (simp only: keys_after_update)
  have kk: "saved_pk self ?db1 = k"
    by (cases "pk self") (simp_all add: k_def saved_pk_def assign_pk_def fresh_pk_def keys_qs_update)
  note d = domain_model_save_ok [OF b, unfolded sp kk]
  show "table_ok db'" using d(1) ok1 by (simp add: table_ok_update)
  show "self' = self\<lparr>is_primary := effective self db, pk := Some k\<rparr>" using d(2) by simp
  show "(pk self = None \<and> map_of db k = None) \<or> pk self = Some k"
    using c by (simp add: kk map_of_eq_None_iff)
  then have pk: "pk self = None \<or> pk self = Some k" by blast
  show "map_of db' k = Some (stored_row self db)"
    by (simp add: d(1) update_conv' to_row_def stored_row_def)
  show "map_of db' j = map_option (demoted self db) (map_of db j)" if "j \<noteq> k"
  proof -
    have "Some j \<noteq> pk self" using pk that by auto
    then have i: "\<And>r. in_domain_list self j r \<longleftrightarrow> row_tenant r = tenant self \<and> row_is_primary r"
      by (simp add: in_domain_list_def)
    have "map_of db' j = map_of ?db1 j" using that by (simp add: d(1) update_conv')
    also have "\<dots> = map_option (demoted self db) (map_of db j)"
      unfolding map_of_after_update
      by (cases "map_of db j") (auto simp: i demoted_def)
    finally show ?thesis .
  qed
qed

lemma domain_save_err:
  "domain_save self db = (db', Inl e) \<Longrightarrow> db' = db"
  by (auto simp: domain_save_def transaction_atomic_def split: prod.splits sum.splits)

lemma demoted_tenant [simp]: "row_tenant (demoted self db r) = row_tenant r"
  by (simp add: demoted_def)

lemma demoted_primary:
  "row_is_primary (demoted self db r) \<longleftrightarrow>
     row_is_primary r \<and> \<not> (effective self db \<and> row_tenant r = tenant self)"
  by (simp add: demoted_def)

lemma at_most_one_primary_step:
  assumes ok: "table_ok db" and s: "domain_save self db = (db', Inr self')"
    and p: "at_most_one_primary t (map_of db)"
  shows "at_most_one_primary t (map_of db')"
  unfolding at_most_one_primary_def
proof (intro allI impI)
  fix k1 k2 r1 r2
  assume h: "map_of db' k1 = Some r1 \<and> row_tenant r1 = t \<and> row_is_primary r1 \<and>
             map_of db' k2 = Some r2 \<and> row_tenant r2 = t \<and> row_is_primary r2"
  let ?k = "saved_pk self db"
  note f = domain_save_ok [OF ok s]
  have other: "\<exists>r. map_of db j = Some r \<and> row_tenant r = t \<and> row_is_primary r
                 \<and> \<not> (effective self db \<and> t = tenant self)"
    if "j \<noteq> ?k" "map_of db' j = Some r'" "row_tenant r' = t" "row_is_primary r'" for j r'
  proof -
    from f(5) [OF that(1)] that(2) obtain r where r: "map_of db j = Some r" "r' = demoted self db r"
      by (cases "map_of db j") auto
    with that show ?thesis by (auto simp: demoted_primary)
  qed
  show "k1 = k2"
  proof (cases "k1 = ?k")
    case True
    show ?thesis
    proof (cases "k2 = ?k")
      case True with \<open>k1 = ?k\<close> show ?thesis by simp
    next
      case False
      from other [OF False] h have n: "\<not> (effective self db \<and> t = tenant self)" by blast
      from True h f(4) have "r1 = stored_row self db" by simp
      with h have "effective self db \<and> t = tenant self" by (auto simp: stored_row_def)
      with n show ?thesis by simp
    qed
  next
    case False
    from other [OF False] h obtain q1 where q1: "map_of db k1 = Some q1" "row_tenant q1 = t" "row_is_primary q1"
      and n: "\<not> (effective self db \<and> t = tenant self)" by blast
    show ?thesis
    proof (cases "k2 = ?k")
      case True
      from True h f(4) have "r2 = stored_row self db" by simp
      with h have "effective self db \<and> t = tenant self" by (auto simp: stored_row_def)
      with n show ?thesis by simp
    next
      case False
      from other [OF False] h obtain q2 where q2: "map_of db k2 = Some q2" "row_tenant q2 = t" "row_is_primary q2"
        by blast
      show ?thesis using p [unfolded at_most_one_primary_def, rule_format, of k1 q1 k2 q2] q1 q2 by simp
    qed
  qed
qed

lemma some_primary_step:
  assumes ok: "table_ok db" and s: "domain_save self db = (db', Inr self')"
    and p: "some_primary t (map_of db)" and nr: "\<not> reassigns t self db"
  shows "some_primary t (map_of db')"
  unfolding some_primary_def
proof
  let ?k = "saved_pk self db"
  note f = domain_save_ok [OF ok s]
  assume "\<exists>k r. map_of db' k = Some r \<and> row_tenant r = t"
  then obtain j r' where j: "map_of db' j = Some r'" "row_tenant r' = t" by blast
  show "\<exists>k r. map_of db' k = Some r \<and> row_tenant r = t \<and> row_is_primary r"
  proof (cases "t = tenant self")
    case True
    show ?thesis
    proof (cases "effective self db")
      case True
      with \<open>t = tenant self\<close> f(4) show ?thesis
        by (intro exI [of _ ?k] exI [of _ "stored_row self db"]) (simp add: stored_row_def)
    next
      case False
      then have "qs_exists self db" by (simp add: effective_def)
      then obtain i q where q: "map_of db i = Some q" "in_domain_list self i q"
        using qs_exists_iff [OF ok] by blast
      have "i \<noteq> ?k" using f(3) q by (auto simp: in_domain_list_def)
      from f(5) [OF this] q False have "map_of db' i = Some q" by (simp add: demoted_def)
      with q True show ?thesis by (auto simp: in_domain_list_def)
    qed
  next
    case False
    have jk: "j \<noteq> ?k" using j f(4) False by (auto simp: stored_row_def)
    from f(5) [OF jk] j obtain r where r: "map_of db j = Some r" "row_tenant r = t"
      by (cases "map_of db j") auto
    with p obtain i q where q: "map_of db i = Some q" "row_tenant q = t" "row_is_primary q"
      unfolding some_primary_def by blast
    have "i \<noteq> ?k"
    proof
      assume e: "i = ?k"
      with q f(3) have "pk self = Some ?k" by auto
      with q e False nr show False by (simp add: reassigns_def)
    qed
    from f(5) [OF this] q False have "map_of db' i = Some q" by (simp add: demoted_def)
    with q show ?thesis by blast
  qed
qed

lemma save_all_invariant:
  assumes "table_ok db" and "at_most_one_primary t (map_of db)"
  shows "table_ok (domain_save_all saves db) \<and> at_most_one_primary t (map_of (domain_save_all saves db))"
  using assms
proof (induction saves arbitrary: db)
  case Nil then show ?case by simp
next
  case (Cons self rest)
  obtain db' res where s: "domain_save self db = (db', res)" by (cases "domain_save self db")
  have "table_ok db' \<and> at_most_one_primary t (map_of db')"
  proof (cases res)
    case (Inl e)
    with s domain_save_err have "db' = db" by blast
    with Cons.prems show ?thesis by simp
  next
    case (Inr self')
    with s Cons.prems show ?thesis
      using domain_save_ok(1) [of db self db' self'] at_most_one_primary_step [of db self db' self' t] by simp
  qed
  with Cons.IH [of db'] s show ?case by simp
qed

lemma save_all_some_primary:
  assumes "table_ok db" and "some_primary t (map_of db)" and "never_reassigns t saves db"
  shows "some_primary t (map_of (domain_save_all saves db))"
  using assms
proof (induction saves arbitrary: db)
  case Nil then show ?case by simp
next
  case (Cons self rest)
  obtain db' res where s: "domain_save self db = (db', res)" by (cases "domain_save self db")
  have "table_ok db' \<and> some_primary t (map_of db')"
  proof (cases res)
    case (Inl e)
    with s domain_save_err have "db' = db" by blast
    with Cons.prems show ?thesis by simp
  next
    case (Inr self')
    with s Cons.prems show ?thesis
      using domain_save_ok(1) [of db self db' self'] some_primary_step [of db self db' self' t] by simp
  qed
  with Cons.IH [of db'] Cons.prems(3) s show ?case by simp
qed

lemma domains_of_nonempty:
  assumes "table_ok db"
  shows "domains_of t db \<noteq> [] \<longleftrightarrow> (\<exists>k r. map_of db k = Some r \<and> row_tenant r = t)"
proof -
  have "domains_of t db \<noteq> [] \<longleftrightarrow> (\<exists>x\<in>set db. case x of (k, r) \<Rightarrow> row_tenant r = t)"
    by (simp add: domains_of_def filter_empty_conv)
  also have "\<dots> \<longleftrightarrow> (\<exists>k r. (k, r) \<in> set db \<and> row_tenant r = t)"
    by (simp add: Bex_def split_paired_Ex)
  finally show ?thesis using assms by (simp add: in_table_iff)
qed

lemma primaries_nonempty:
  assumes "table_ok db"
  shows "primaries_of t db \<noteq> [] \<longleftrightarrow> (\<exists>k r. map_of db k = Some r \<and> row_tenant r = t \<and> row_is_primary r)"
proof -
  have "primaries_of t db \<noteq> [] \<longleftrightarrow> (\<exists>x\<in>set db. case x of (k, r) \<Rightarrow> row_tenant r = t \<and> row_is_primary r)"
    by (simp add: primaries_of_def filter_empty_conv)
  also have "\<dots> \<longleftrightarrow> (\<exists>k r. (k, r) \<in> set db \<and> row_tenant r = t \<and> row_is_primary r)"
    by (simp add: Bex_def split_paired_Ex)
  finally show ?thesis using assms by (simp add: in_table_iff)
qed

text \<open>
  Claim C1, as the code has it. Start from a table in which tenant \<open>t\<close> has no
  domain and run any sequence of \<open>save\<close> calls, failed ones included. Then at most one
  domain of \<open>t\<close> is primary. If moreover no call of the sequence reassigns a stored
  domain of \<open>t\<close> to another tenant, then \<open>t\<close> has exactly one primary domain as soon
  as it has a domain at all.
\<close>

theorem primary_domain_uniqueness:
  assumes ok: "table_ok db" and none: "domains_of t db = []"
  shows "length (primaries_of t (domain_save_all saves db)) \<le> 1 \<and>
         (never_reassigns t saves db \<and> domains_of t (domain_save_all saves db) \<noteq> [] \<longrightarrow>
            length (primaries_of t (domain_save_all saves db)) = 1)"
proof -
  let ?db = "domain_save_all saves db"
  have e: "\<not> (\<exists>k r. map_of db k = Some r \<and> row_tenant r = t)"
    using domains_of_nonempty [OF ok, of t] none by simp
  then have p1: "at_most_one_primary t (map_of db)" and p2: "some_primary t (map_of db)"
    unfolding at_most_one_primary_def some_primary_def by blast+
  from save_all_invariant [OF ok p1, of saves]
  have ok': "table_ok ?db" and q1: "at_most_one_primary t (map_of ?db)" by simp_all
  have le: "length (primaries_of t ?db) \<le> 1" using primaries_le1 [OF ok'] q1 by simp
  have "length (primaries_of t ?db) = 1"
    if "never_reassigns t saves db" "domains_of t ?db \<noteq> []"
  proof -
    have "some_primary t (map_of ?db)" using save_all_some_primary [OF ok p2 that(1)] .
    with that(2) have "primaries_of t ?db \<noteq> []"
      using domains_of_nonempty [OF ok'] primaries_nonempty [OF ok'] unfolding some_primary_def by simp
    then have "length (primaries_of t ?db) \<noteq> 0" by simp
    with le show ?thesis by linarith
  qed
  with le show ?thesis by blast
qed

lemmas ev = domain_save_def transaction_atomic_def domain_save_body_def domain_model_save_def
  qs_exists_def domain_list_def in_domain_list_def qs_update_def map_ran_def assign_pk_def fresh_pk_def to_row_def
  Let_def domains_of_def primaries_of_def table_ok_def reassigns_def new_domain_def is_primary_default_def

lemma save_as_primary:
  assumes ok: "table_ok db" and e: "map_of db e = Some er" "row_tenant er = tenant self"
    "row_is_primary er" "pk self \<noteq> Some e"
    and p: "is_primary self" and s: "domain_save self db = (db', Inr self')"
  shows "e \<noteq> saved_pk self db"
    and "map_of db' e = Some (er\<lparr>row_is_primary := False\<rparr>)"
    and "pk self' = Some (saved_pk self db)"
    and "map_of db' (saved_pk self db) =
           Some \<lparr>row_domain = domain self, row_tenant = tenant self, row_is_primary = True\<rparr>"
proof -
  note f = domain_save_ok [OF ok s]
  have eff: "effective self db" using p by (simp add: effective_def)
  show ne: "e \<noteq> saved_pk self db" using f(3) e(1,4) by auto
  show "map_of db' e = Some (er\<lparr>row_is_primary := False\<rparr>)"
    using f(5) [OF ne] e eff by (simp add: demoted_def)
  show "pk self' = Some (saved_pk self db)" using f(2) by simp
  show "map_of db' (saved_pk self db) =
           Some \<lparr>row_domain = domain self, row_tenant = tenant self, row_is_primary = True\<rparr>"
    using f(4) eff by (simp add: stored_row_def)
qed

text \<open>
  Claim C3. A \<open>save\<close> that succeeds stores the domain under its key with the
  caller's domain string and tenant, and with \<open>is_primary\<close> true exactly when the
  caller supplied true or the table held no primary domain of the same tenant under
  another key; the instance carries the same value. A domain saved for a tenant
  without domains is therefore stored as primary whatever the caller supplied. When
  the stored value is true, every other domain of the tenant is stored as not
  primary; when it is false, no other row changes.
\<close>

theorem effective_is_primary_persisted:
  assumes ok: "table_ok db" and s: "domain_save self db = (db', Inr self')"
  shows "\<exists>k row. pk self' = Some k \<and> map_of db' k = Some row
           \<and> row_domain row = domain self \<and> row_tenant row = tenant self
           \<and> (row_is_primary row \<longleftrightarrow>
                 is_primary self \<or>
                 \<not> (\<exists>j r. map_of db j = Some r \<and> row_tenant r = tenant self
                            \<and> row_is_primary r \<and> Some j \<noteq> pk self))
           \<and> is_primary self' = row_is_primary row
           \<and> (\<not> (\<exists>j r. map_of db j = Some r \<and> row_tenant r = tenant self)
                \<longrightarrow> row_is_primary row)
           \<and> (row_is_primary row \<longrightarrow>
                (\<forall>j r. j \<noteq> k \<and> map_of db j = Some r \<and> row_tenant r = tenant self
                   \<longrightarrow> map_of db' j = Some (r\<lparr>row_is_primary := False\<rparr>)))
           \<and> (\<not> row_is_primary row \<longrightarrow> (\<forall>j. j \<noteq> k \<longrightarrow> map_of db' j = map_of db j))"
proof -
  let ?k = "saved_pk self db"
  let ?others = "\<exists>j r. map_of db j = Some r \<and> row_tenant r = tenant self
                            \<and> row_is_primary r \<and> Some j \<noteq> pk self"
  let ?row = "stored_row self db"
  note f = domain_save_ok [OF ok s]
  have eff: "effective self db \<longleftrightarrow> is_primary self \<or> \<not> ?others"
    unfolding effective_def qs_exists_iff [OF ok] in_domain_list_def by simp
  have 1: "pk self' = Some ?k" using f(2) by simp
  have 2: "map_of db' ?k = Some ?row" by (rule f(4))
  have 3: "row_domain ?row = domain self" "row_tenant ?row = tenant self"
    by (simp_all add: stored_row_def)
  have 4: "row_is_primary ?row \<longleftrightarrow> is_primary self \<or> \<not> ?others"
    by (simp add: stored_row_def eff)
  have 5: "is_primary self' = row_is_primary ?row"
    using f(2) by (simp add: stored_row_def)
  have 6: "\<not> (\<exists>j r. map_of db j = Some r \<and> row_tenant r = tenant self) \<longrightarrow> row_is_primary ?row"
    unfolding 4 by blast
  have 7: "row_is_primary ?row \<longrightarrow>
                (\<forall>j r. j \<noteq> ?k \<and> map_of db j = Some r \<and> row_tenant r = tenant self
                   \<longrightarrow> map_of db' j = Some (r\<lparr>row_is_primary := False\<rparr>))"
  proof (intro impI allI)
    fix j r
    assume p: "row_is_primary ?row"
      and h: "j \<noteq> ?k \<and> map_of db j = Some r \<and> row_tenant r = tenant self"
    from p have "effective self db" by (simp add: stored_row_def)
    with f(5) [of j] h show "map_of db' j = Some (r\<lparr>row_is_primary := False\<rparr>)"
      by (simp add: demoted_def)
  qed
  have 8: "\<not> row_is_primary ?row \<longrightarrow> (\<forall>j. j \<noteq> ?k \<longrightarrow> map_of db' j = map_of db j)"
  proof (intro impI allI)
    fix j
    assume p: "\<not> row_is_primary ?row" and h: "j \<noteq> ?k"
    from p have n: "\<not> effective self db" by (simp add: stored_row_def)
    have "demoted self db = (\<lambda>r. r)" using n by (simp add: demoted_def fun_eq_iff)
    with f(5) [OF h] show "map_of db' j = map_of db j"
      by (simp add: option.map_ident)
  qed
  show ?thesis
    using 1 2 3 4 5 6 7 8
    by (intro exI [of _ ?k] exI [of _ ?row]) (intro conjI; assumption)
qed

text \<open>
  Tenant 7 has the primary domain \<open>a.example.com\<close>. A second domain saved with
  \<open>is_primary = False\<close> is stored as not primary; the primary domain itself, saved
  again with \<open>False\<close>, stays primary (no other primary exists); and on the empty
  table the first domain saved with \<open>False\<close> is stored as primary.
\<close>

theorem effective_is_primary_persisted_witness:
  "table_ok [(1::nat, \<lparr>row_domain = ''a.example.com'', row_tenant = 7, row_is_primary = True\<rparr>)]
   \<and> domain_save \<lparr>pk = None, domain = ''b.example.com'', tenant = 7, is_primary = False\<rparr>
        [(1, \<lparr>row_domain = ''a.example.com'', row_tenant = 7, row_is_primary = True\<rparr>)]
      = ([(1, \<lparr>row_domain = ''a.example.com'', row_tenant = 7, row_is_primary = True\<rparr>),
          (2, \<lparr>row_domain = ''b.example.com'', row_tenant = 7, row_is_primary = False\<rparr>)],
         Inr \<lparr>pk = Some 2, domain = ''b.example.com'', tenant = 7, is_primary = False\<rparr>)
   \<and> map_of [(1::nat, \<lparr>row_domain = ''a.example.com'', row_tenant = 7, row_is_primary = True\<rparr>)] 1
       = Some \<lparr>row_domain = ''a.example.com'', row_tenant = 7, row_is_primary = True\<rparr>
   \<and> Some (1::nat) \<noteq> pk \<lparr>pk = None, domain = ''b.example.com'', tenant = 7, is_primary = False\<rparr>
   \<and> (\<exists>k row. Some (2::nat) = Some k
         \<and> map_of [(1, \<lparr>row_domain = ''a.example.com'', row_tenant = 7, row_is_primary = True\<rparr>),
                    (2, \<lparr>row_domain = ''b.example.com'', row_tenant = 7, row_is_primary = False\<rparr>)] k
             = Some row
         \<and> \<not> row_is_primary row)
   \<and> domain_save \<lparr>pk = Some 1, domain = ''a.example.com'', tenant = 7, is_primary = False\<rparr>
        [(1, \<lparr>row_domain = ''a.example.com'', row_tenant = 7, row_is_primary = True\<rparr>)]
      = ([(1, \<lparr>row_domain = ''a.example.com'', row_tenant = 7, row_is_primary = True\<rparr>)],
         Inr \<lparr>pk = Some 1, domain = ''a.example.com'', tenant = 7, is_primary = True\<rparr>)
   \<and> domain_save \<lparr>pk = None, domain = ''a.example.com'', tenant = 7, is_primary = False\<rparr> []
      = ([(1, \<lparr>row_domain = ''a.example.com'', row_tenant = 7, row_is_primary = True\<rparr>)],
         Inr \<lparr>pk = Some 1, domain = ''a.example.com'', tenant = 7, is_primary = True\<rparr>)"
proof -
  have ok: "table_ok [(1::nat, \<lparr>row_domain = ''a.example.com'', row_tenant = 7, row_is_primary = True\<rparr>)]"
    by (simp add: table_ok_def)
  have s: "domain_save \<lparr>pk = None, domain = ''b.example.com'', tenant = 7, is_primary = False\<rparr>
        [(1, \<lparr>row_domain = ''a.example.com'', row_tenant = 7, row_is_primary = True\<rparr>)]
      = ([(1, \<lparr>row_domain = ''a.example.com'', row_tenant = 7, row_is_primary = True\<rparr>),
          (2, \<lparr>row_domain = ''b.example.com'', row_tenant = 7, row_is_primary = False\<rparr>)],
         Inr \<lparr>pk = Some 2, domain = ''b.example.com'', tenant = 7, is_primary = False\<rparr>)"
    by (simp add: ev)
  from effective_is_primary_persisted [OF ok s]
  obtain k row where r: "Some (2::nat) = Some k"
    "map_of [(1, \<lparr>row_domain = ''a.example.com'', row_tenant = 7, row_is_primary = True\<rparr>),
             (2, \<lparr>row_domain = ''b.example.com'', row_tenant = 7, row_is_primary = False\<rparr>)] k = Some row"
    by auto
  then have "\<not> row_is_primary row" by auto
  with r have e: "\<exists>k row. Some (2::nat) = Some k
         \<and> map_of [(1, \<lparr>row_domain = ''a.example.com'', row_tenant = 7, row_is_primary = True\<rparr>),
                    (2, \<lparr>row_domain = ''b.example.com'', row_tenant = 7, row_is_primary = False\<rparr>)] k
             = Some row
         \<and> \<not> row_is_primary row" by blast
  show ?thesis using ok s e by (simp add: ev)
qed

text \<open>The scenario of the spec: a first domain, a second one saved as not primary,
  then the second saved again as primary.\<close>

theorem primary_domain_uniqueness_witness:
  "table_ok ([] :: domain_table) \<and> domains_of 1 [] = []
   \<and> never_reassigns 1
        [\<lparr>pk = None, domain = ''a.example.com'', tenant = 1, is_primary = True\<rparr>,
         \<lparr>pk = None, domain = ''b.example.com'', tenant = 1, is_primary = False\<rparr>,
         \<lparr>pk = Some 2, domain = ''b.example.com'', tenant = 1, is_primary = True\<rparr>] []
   \<and> domain_save_all
        [\<lparr>pk = None, domain = ''a.example.com'', tenant = 1, is_primary = True\<rparr>,
         \<lparr>pk = None, domain = ''b.example.com'', tenant = 1, is_primary = False\<rparr>,
         \<lparr>pk = Some 2, domain = ''b.example.com'', tenant = 1, is_primary = True\<rparr>] []
       = [(1, \<lparr>row_domain = ''a.example.com'', row_tenant = 1, row_is_primary = False\<rparr>),
          (2, \<lparr>row_domain = ''b.example.com'', row_tenant = 1, row_is_primary = True\<rparr>)]
   \<and> length (primaries_of 1 (domain_save_all
        [\<lparr>pk = None, domain = ''a.example.com'', tenant = 1, is_primary = True\<rparr>,
         \<lparr>pk = None, domain = ''b.example.com'', tenant = 1, is_primary = False\<rparr>,
         \<lparr>pk = Some 2, domain = ''b.example.com'', tenant = 1, is_primary = True\<rparr>] [])) = 1"
  using primary_domain_uniqueness
    [of "[]" 1 "[\<lparr>pk = None, domain = ''a.example.com'', tenant = 1, is_primary = True\<rparr>,
         \<lparr>pk = None, domain = ''b.example.com'', tenant = 1, is_primary = False\<rparr>,
         \<lparr>pk = Some 2, domain = ''b.example.com'', tenant = 1, is_primary = True\<rparr>]"]
  by (simp add: ev)

text \<open>
  Claim C1 as stated fails. Tenant 1 gets a primary domain and a second, non-primary
  one; the first is then saved again with tenant 2 in its \<open>tenant\<close> column. Line 150
  looks at the domains of the new tenant only, so tenant 1 keeps one domain and no
  primary one.
\<close>

theorem primary_lost_by_reassignment_counterexample:
  "domains_of 1 [] = []
   \<and> domain_save_all
        [\<lparr>pk = None, domain = ''a.example.com'', tenant = 1, is_primary = True\<rparr>,
         \<lparr>pk = None, domain = ''b.example.com'', tenant = 1, is_primary = False\<rparr>,
         \<lparr>pk = Some 1, domain = ''a.example.com'', tenant = 2, is_primary = True\<rparr>] []
       = [(1, \<lparr>row_domain = ''a.example.com'', row_tenant = 2, row_is_primary = True\<rparr>),
          (2, \<lparr>row_domain = ''b.example.com'', row_tenant = 1, row_is_primary = False\<rparr>)]
   \<and> domains_of 1
        [(1, \<lparr>row_domain = ''a.example.com'', row_tenant = 2, row_is_primary = True\<rparr>),
         (2, \<lparr>row_domain = ''b.example.com'', row_tenant = 1, row_is_primary = False\<rparr>)]
       = [(2, \<lparr>row_domain = ''b.example.com'', row_tenant = 1, row_is_primary = False\<rparr>)]
   \<and> primaries_of 1
        [(1, \<lparr>row_domain = ''a.example.com'', row_tenant = 2, row_is_primary = True\<rparr>),
         (2, \<lparr>row_domain = ''b.example.com'', row_tenant = 1, row_is_primary = False\<rparr>)]
       = []"
  by (simp add: ev)

text \<open>
  \<open>get_primary_domain\<close> after any sequence of \<open>save\<close> calls: started from a table
  without domains of the tenant, the lookup never raises \<open>MultipleObjectsReturned\<close>.
\<close>

theorem get_primary_domain_never_ambiguous:
  assumes ok: "table_ok db" and none: "domains_of t db = []"
  shows "\<exists>found. get_primary_domain t (domain_save_all saves db) = Inr found"
proof -
  have "\<not> (\<exists>k r. map_of db k = Some r \<and> row_tenant r = t)"
    using domains_of_nonempty [OF ok, of t] none by simp
  then have "at_most_one_primary t (map_of db)"
    unfolding at_most_one_primary_def by blast
  from save_all_invariant [OF ok this, of saves]
  have "length (primaries_of t (domain_save_all saves db)) \<le> 1"
    using primaries_le1 by blast
  then show ?thesis
    by (cases "primaries_of t (domain_save_all saves db)" rule: remdups_adj.cases)
       (simp_all add: get_primary_domain_def)
qed

theorem get_primary_domain_never_ambiguous_witness:
  "table_ok ([] :: domain_table) \<and> domains_of 1 [] = []
   \<and> get_primary_domain 1 (domain_save_all
        [\<lparr>pk = None, domain = ''a.example.com'', tenant = 1, is_primary = True\<rparr>,
         \<lparr>pk = None, domain = ''b.example.com'', tenant = 1, is_primary = True\<rparr>] [])
       = Inr (Some (2, \<lparr>row_domain = ''b.example.com'', row_tenant = 1, row_is_primary = True\<rparr>))"
  using get_primary_domain_never_ambiguous
    [of "[]" 1 "[\<lparr>pk = None, domain = ''a.example.com'', tenant = 1, is_primary = True\<rparr>,
         \<lparr>pk = None, domain = ''b.example.com'', tenant = 1, is_primary = True\<rparr>]"]
  by (simp add: ev get_primary_domain_def)

text \<open>
  Claim C5. Domain \<open>e\<close> is the primary domain of the tenant and another domain is saved
  as primary for the same tenant. If the call succeeds, \<open>e\<close> is stored as not primary
  and the saved domain as primary; if it raises, the table is the one before the call.
\<close>

theorem demotion_atomic:
  assumes ok: "table_ok db" and e: "map_of db e = Some er" "row_tenant er = tenant self"
    "row_is_primary er" "pk self \<noteq> Some e"
    and p: "is_primary self" and s: "domain_save self db = (db', res)"
  shows "case res of
           Inr self' \<Rightarrow>
             map_of db' e = Some (er\<lparr>row_is_primary := False\<rparr>)
             \<and> (\<exists>k. pk self' = Some k \<and> k \<noteq> e
                   \<and> map_of db' k = Some \<lparr>row_domain = domain self, row_tenant = tenant self,
                                          row_is_primary = True\<rparr>)
         | Inl err \<Rightarrow> db' = db"
proof (cases res)
  case (Inl err)
  with s show ?thesis by (simp add: domain_save_err)
next
  case (Inr self')
  with s have s': "domain_save self db = (db', Inr self')" by simp
  note f = save_as_primary [OF ok e p s']
  from f(1,3,4) have "\<exists>k. pk self' = Some k \<and> k \<noteq> e
                   \<and> map_of db' k = Some \<lparr>row_domain = domain self, row_tenant = tenant self,
                                          row_is_primary = True\<rparr>"
    by (intro exI [of _ "saved_pk self db"]) simp
  with f(2) Inr show ?thesis by simp
qed

text \<open>A successful call, and a call that fails on line 154 (the domain string is
  taken): the body has demoted \<open>e\<close> by then, and the decorator takes the demotion
  back.\<close>

theorem demotion_atomic_witness:
  "table_ok [(1::nat, \<lparr>row_domain = ''e.example.com'', row_tenant = 3, row_is_primary = True\<rparr>)]
   \<and> domain_save \<lparr>pk = None, domain = ''d.example.com'', tenant = 3, is_primary = True\<rparr>
        [(1, \<lparr>row_domain = ''e.example.com'', row_tenant = 3, row_is_primary = True\<rparr>)]
      = ([(1, \<lparr>row_domain = ''e.example.com'', row_tenant = 3, row_is_primary = False\<rparr>),
          (2, \<lparr>row_domain = ''d.example.com'', row_tenant = 3, row_is_primary = True\<rparr>)],
         Inr \<lparr>pk = Some 2, domain = ''d.example.com'', tenant = 3, is_primary = True\<rparr>)
   \<and> domain_save_body \<lparr>pk = None, domain = ''e.example.com'', tenant = 3, is_primary = True\<rparr>
        [(1, \<lparr>row_domain = ''e.example.com'', row_tenant = 3, row_is_primary = True\<rparr>)]
      = ([(1, \<lparr>row_domain = ''e.example.com'', row_tenant = 3, row_is_primary = False\<rparr>)],
         Inl IntegrityError)
   \<and> domain_save \<lparr>pk = None, domain = ''e.example.com'', tenant = 3, is_primary = True\<rparr>
        [(1, \<lparr>row_domain = ''e.example.com'', row_tenant = 3, row_is_primary = True\<rparr>)]
      = ([(1, \<lparr>row_domain = ''e.example.com'', row_tenant = 3, row_is_primary = True\<rparr>)],
         Inl IntegrityError)"
  using demotion_atomic
    [of "[(1, \<lparr>row_domain = ''e.example.com'', row_tenant = 3, row_is_primary = True\<rparr>)]" 1
        "\<lparr>row_domain = ''e.example.com'', row_tenant = 3, row_is_primary = True\<rparr>"
        "\<lparr>pk = None, domain = ''d.example.com'', tenant = 3, is_primary = True\<rparr>"
        "[(1, \<lparr>row_domain = ''e.example.com'', row_tenant = 3, row_is_primary = False\<rparr>),
          (2, \<lparr>row_domain = ''d.example.com'', row_tenant = 3, row_is_primary = True\<rparr>)]"
        "Inr \<lparr>pk = Some 2, domain = ''d.example.com'', tenant = 3, is_primary = True\<rparr>"]
  by (simp add: ev)

text \<open>
  Claim C9. A domain built without \<open>is_primary\<close> carries the field default
  \<open>True\<close>; saving it for a tenant that has a primary domain \<open>e\<close> stores \<open>e\<close> as not
  primary and the new domain as primary.
\<close>

theorem default_requests_primary:
  assumes ok: "table_ok db" and e: "map_of db e = Some er" "row_tenant er = t" "row_is_primary er"
    and s: "domain_save (new_domain d t) db = (db', Inr self')"
  shows "is_primary (new_domain d t)
         \<and> map_of db' e = Some (er\<lparr>row_is_primary := False\<rparr>)
         \<and> (\<exists>k. pk self' = Some k \<and> k \<noteq> e
               \<and> map_of db' k = Some \<lparr>row_domain = d, row_tenant = t, row_is_primary = True\<rparr>)"
proof -
  have p: "is_primary (new_domain d t)" by (simp add: new_domain_def is_primary_default_def)
  have e': "row_tenant er = tenant (new_domain d t)" "pk (new_domain d t) \<noteq> Some e"
    using e(2) by (simp_all add: new_domain_def)
  note f = save_as_primary [OF ok e(1) e'(1) e(3) e'(2) p s]
  from f(1,3,4) have "\<exists>k. pk self' = Some k \<and> k \<noteq> e
               \<and> map_of db' k = Some \<lparr>row_domain = d, row_tenant = t, row_is_primary = True\<rparr>"
    by (intro exI [of _ "saved_pk (new_domain d t) db"]) (simp add: new_domain_def)
  with p f(2) show ?thesis by simp
qed

text \<open>A second domain for tenant 5, saved with the default.\<close>

theorem default_requests_primary_witness:
  "table_ok [(1::nat, \<lparr>row_domain = ''a.example.com'', row_tenant = 5, row_is_primary = True\<rparr>)]
   \<and> domain_save (new_domain ''b.example.com'' 5)
        [(1, \<lparr>row_domain = ''a.example.com'', row_tenant = 5, row_is_primary = True\<rparr>)]
      = ([(1, \<lparr>row_domain = ''a.example.com'', row_tenant = 5, row_is_primary = False\<rparr>),
          (2, \<lparr>row_domain = ''b.example.com'', row_tenant = 5, row_is_primary = True\<rparr>)],
         Inr \<lparr>pk = Some 2, domain = ''b.example.com'', tenant = 5, is_primary = True\<rparr>)
   \<and> is_primary (new_domain ''b.example.com'' 5)"
  using default_requests_primary
    [of "[(1, \<lparr>row_domain = ''a.example.com'', row_tenant = 5, row_is_primary = True\<rparr>)]" 1
        "\<lparr>row_domain = ''a.example.com'', row_tenant = 5, row_is_primary = True\<rparr>" 5
        "''b.example.com''"
        "[(1, \<lparr>row_domain = ''a.example.com'', row_tenant = 5, row_is_primary = False\<rparr>),
          (2, \<lparr>row_domain = ''b.example.com'', row_tenant = 5, row_is_primary = True\<rparr>)]"
        "\<lparr>pk = Some 2, domain = ''b.example.com'', tenant = 5, is_primary = True\<rparr>"]
  by (simp add: ev)

section \<open>Properties of the tenant lifecycle\<close>

lemmas ops = return_op_def raise_op_def bind_op_def try_except_def

lemma tenant_model_save_ok:
  assumes "tenant_model_save self w = (w1, Inr self1)"
  defines "k \<equiv> assign_pk (pk self) (tenants w)"
  shows "self1 = self\<lparr>pk := Some k\<rparr>"
    and "w1 = w\<lparr>tenants := AList.update k (schema_name self) (tenants w),
                trace := trace w @ [RowSaved k (schema_name self)]\<rparr>"
    and "length (schema_name self) \<le> 63"
    and "\<not> list_ex (\<lambda>(j, n). n = schema_name self \<and> Some j \<noteq> pk self) (tenants w)"
  using assms by (auto simp: tenant_model_save_def Let_def split: if_splits)

lemma create_schema_tenants:
  "create_schema oc name c s v w = (w', r) \<Longrightarrow> tenants w' = tenants w"
  by (auto simp: create_schema_def split: if_splits ddl_outcome.splits)

lemma create_schema_fails:
  assumes "create_schema oc name c s v w = (w', Inl e)"
  shows "(c \<and> schema_exists name w \<and> e = AlreadyExists \<and> w' = w)
       \<or> (\<not> (c \<and> schema_exists name w) \<and> oc = FailsBeforeCreate e
            \<and> w' = w\<lparr>trace := trace w @ [DdlCreate name]\<rparr>)
       \<or> (\<not> (c \<and> schema_exists name w) \<and> oc = FailsAfterCreate e
            \<and> w' = w\<lparr>schemas := List.insert name (schemas w), trace := trace w @ [DdlCreate name]\<rparr>)"
  using assms by (auto simp: create_schema_def split: if_splits ddl_outcome.splits)

lemma create_and_announce_fails:
  "create_and_announce en v self w = (w', Inl e) \<longleftrightarrow>
     tenant_create_schema en self True True v w = (w', Inl e)"
  by (auto simp: create_and_announce_def ops send_def split: prod.splits sum.splits)

lemma create_and_announce_ok:
  assumes "tenant_create_schema en self True True v w = (w', Inr b)"
  shows "create_and_announce en v self w =
     (w'\<lparr>trace := trace w' @ [Published PostSync self (map (\<lambda>h. h self) (receivers en PostSync))]\<rparr>,
      Inr self)"
  using assms by (simp add: create_and_announce_def ops send_def serializable_fields_def)

lemma tenant_delete_forced:
  assumes "pk self = Some k"
  shows "tenant_delete en True self w =
     (w\<lparr>schemas := removeAll (schema_name self) (schemas w),
        tenants := AList.delete k (tenants w),
        trace := trace w @ [Published PreDrop self (map (\<lambda>h. h self) (receivers en PreDrop)),
                            DdlDrop (schema_name self), RowDeleted k]\<rparr>,
      Inr (self\<lparr>pk := None\<rparr>))"
  using assms
  by (simp add: tenant_delete_def ops send_def serializable_fields_def tenant_drop_schema_def
      drop_schema_def tenant_model_delete_def)

lemma new_tenant_creation_fails:
  assumes new: "pk self = None" and auto: "auto_create_schema self"
    and saved: "tenant_model_save self w = (w1, Inr self1)"
    and fails: "tenant_create_schema en self1 True True v w1 = (w2, Inl e)"
  defines "k \<equiv> fresh_pk (tenants w)"
  shows "tenant_save en v self w =
     (w2\<lparr>schemas := removeAll (schema_name self) (schemas w2),
         tenants := AList.delete k (tenants w2),
         trace := trace w2 @ [Published PreDrop self1 (map (\<lambda>h. h self1) (receivers en PreDrop)),
                              DdlDrop (schema_name self), RowDeleted k]\<rparr>,
      Inl e)"
proof -
  note m = tenant_model_save_ok [OF saved]
  have k: "pk self1 = Some k" "schema_name self1 = schema_name self" "auto_create_schema self1"
    using m(1) new auto by (simp_all add: k_def assign_pk_def)
  have c: "create_and_announce en v self1 w1 = (w2, Inl e)"
    using fails by (simp add: create_and_announce_fails)
  show ?thesis
    using saved new k c tenant_delete_forced [OF k(1), of en w2]
    by (simp add: tenant_save_def Let_def ops)
qed

lemmas tev = tenant_save_def tenant_model_save_def tenant_model_delete_def tenant_delete_def
  create_and_announce_def tenant_create_schema_def create_schema_def tenant_drop_schema_def
  drop_schema_def send_def serializable_fields_def schema_exists_def assign_pk_def fresh_pk_def
  ops Let_def table_ok_def

text \<open>
  Claim C2. A new tenant whose type creates its namespace automatically is saved, the
  row is written, and the creation of the namespace raises \<open>e\<close>. Then \<open>save\<close> raises
  that same \<open>e\<close>; afterwards the namespace does not exist, the tenant table is what it
  was before the call (the new row is gone and no row carries the name), and the
  cleanup was one forced drop of the namespace followed by the deletion of the row.
\<close>

theorem creation_all_or_nothing:
  assumes new: "pk self = None" and auto: "auto_create_schema self"
    and saved: "tenant_model_save self w = (w1, Inr self1)"
    and fails: "tenant_create_schema en self1 True True v w1 = (w2, Inl e)"
  shows "snd (tenant_save en v self w) = Inl e
         \<and> \<not> schema_exists (schema_name self) (fst (tenant_save en v self w))
         \<and> tenants (fst (tenant_save en v self w)) = tenants w
         \<and> schema_name self \<notin> snd ` set (tenants (fst (tenant_save en v self w)))
         \<and> (\<exists>k. pk self1 = Some k \<and> map_of (tenants (fst (tenant_save en v self w))) k = None
               \<and> filter is_cleanup (trace (fst (tenant_save en v self w))) =
                   filter is_cleanup (trace w) @ [DdlDrop (schema_name self), RowDeleted k])"
proof -
  let ?k = "fresh_pk (tenants w)"
  let ?w' = "fst (tenant_save en v self w)"
  note r = new_tenant_creation_fails [OF new auto saved fails]
  note m = tenant_model_save_ok [OF saved]
  have pk1: "pk self1 = Some ?k" using m(1) new by (simp add: assign_pk_def)
  have t2: "tenants w2 = AList.update ?k (schema_name self) (tenants w)"
    using create_schema_tenants [OF fails [unfolded tenant_create_schema_def]] m(2) new
    by (simp add: assign_pk_def)
  have tr2: "filter is_cleanup (trace w2) = filter is_cleanup (trace w)"
    using create_schema_fails [OF fails [unfolded tenant_create_schema_def]] m(2) by auto
  have 1: "snd (tenant_save en v self w) = Inl e" by (simp add: r)
  have 2: "\<not> schema_exists (schema_name self) ?w'" by (simp add: r schema_exists_def)
  have 3: "tenants ?w' = tenants w"
    by (simp add: r t2 delete_update_same fresh_pk_notin)
  have "\<forall>(j, n) \<in> set (tenants w). n \<noteq> schema_name self"
    using m(4) new by (auto simp: list_ex_iff)
  then have 4: "schema_name self \<notin> snd ` set (tenants ?w')"
    unfolding 3 by auto
  have 5: "map_of (tenants ?w') ?k = None"
    unfolding 3 using fresh_pk_notin [of "tenants w"] by (simp add: map_of_eq_None_iff)
  have 6: "filter is_cleanup (trace ?w') =
             filter is_cleanup (trace w) @ [DdlDrop (schema_name self), RowDeleted ?k]"
    by (simp add: r tr2)
  from 1 2 3 4 pk1 5 6 show ?thesis by blast
qed

text \<open>Tenant \<open>acme\<close>, with a creation that fails after the namespace appeared.\<close>

theorem creation_all_or_nothing_witness:
  "tenant_model_save
      \<lparr>pk = None, schema_name = ''acme'', auto_create_schema = True, auto_drop_schema = False,
         previous_schema = None\<rparr>
      \<lparr>tenants = [], schemas = [], trace = []\<rparr>
    = (\<lparr>tenants = [(1, ''acme'')], schemas = [], trace = [RowSaved 1 ''acme'']\<rparr>,
       Inr \<lparr>pk = Some 1, schema_name = ''acme'', auto_create_schema = True,
              auto_drop_schema = False, previous_schema = None\<rparr>)
   \<and> tenant_create_schema \<lparr>create_outcome = FailsAfterCreate DdlFailure, receivers = (\<lambda>kind. [])\<rparr>
        \<lparr>pk = Some 1, schema_name = ''acme'', auto_create_schema = True,
              auto_drop_schema = False, previous_schema = None\<rparr> True True 1
        \<lparr>tenants = [(1, ''acme'')], schemas = [], trace = [RowSaved 1 ''acme'']\<rparr>
    = (\<lparr>tenants = [(1, ''acme'')], schemas = [''acme''],
         trace = [RowSaved 1 ''acme'', DdlCreate ''acme'']\<rparr>, Inl DdlFailure)
   \<and> tenant_save \<lparr>create_outcome = FailsAfterCreate DdlFailure, receivers = (\<lambda>kind. [])\<rparr> 1
        \<lparr>pk = None, schema_name = ''acme'', auto_create_schema = True, auto_drop_schema = False,
           previous_schema = None\<rparr>
        \<lparr>tenants = [], schemas = [], trace = []\<rparr>
    = (\<lparr>tenants = [], schemas = [],
         trace = [RowSaved 1 ''acme'', DdlCreate ''acme'',
                  Published PreDrop \<lparr>pk = Some 1, schema_name = ''acme'', auto_create_schema = True,
                                      auto_drop_schema = False, previous_schema = None\<rparr> [],
                  DdlDrop ''acme'', RowDeleted 1]\<rparr>, Inl DdlFailure)"
  using creation_all_or_nothing
    [of "\<lparr>pk = None, schema_name = ''acme'', auto_create_schema = True, auto_drop_schema = False,
           previous_schema = None\<rparr>"
        "\<lparr>tenants = [], schemas = [], trace = []\<rparr>"
        "\<lparr>tenants = [(1, ''acme'')], schemas = [], trace = [RowSaved 1 ''acme'']\<rparr>"
        "\<lparr>pk = Some 1, schema_name = ''acme'', auto_create_schema = True,
              auto_drop_schema = False, previous_schema = None\<rparr>"
        "\<lparr>create_outcome = FailsAfterCreate DdlFailure, receivers = (\<lambda>kind. [])\<rparr>" 1
        "\<lparr>tenants = [(1, ''acme'')], schemas = [''acme''],
         trace = [RowSaved 1 ''acme'', DdlCreate ''acme'']\<rparr>" DdlFailure]
  by (simp add: tev)

text \<open>
  Claim C10. In the cleanup after a failed creation of a new tenant, the pre-drop
  signal is sent, with the tenant whose creation failed as snapshot, before the
  namespace is dropped and the row deleted: these are the last three things the call
  does, in that order.
\<close>

theorem cleanup_emits_pre_drop_first:
  assumes new: "pk self = None" and auto: "auto_create_schema self"
    and saved: "tenant_model_save self w = (w1, Inr self1)"
    and fails: "tenant_create_schema en self1 True True v w1 = (w2, Inl e)"
  shows "\<exists>k. pk self1 = Some k
           \<and> snd (tenant_save en v self w) = Inl e
           \<and> trace (fst (tenant_save en v self w)) =
               trace w2 @ [Published PreDrop self1 (map (\<lambda>h. h self1) (receivers en PreDrop)),
                           DdlDrop (schema_name self1), RowDeleted k]"
proof -
  note r = new_tenant_creation_fails [OF new auto saved fails]
  note m = tenant_model_save_ok [OF saved]
  have "pk self1 = Some (fresh_pk (tenants w))" "schema_name self1 = schema_name self"
    using m(1) new by (simp_all add: assign_pk_def)
  then show ?thesis by (simp add: r)
qed

text \<open>Tenant \<open>acme\<close> with one receiver on each signal and a creation that fails at
  once.\<close>

theorem cleanup_emits_pre_drop_first_witness:
  "tenant_model_save
      \<lparr>pk = None, schema_name = ''acme'', auto_create_schema = True, auto_drop_schema = False,
         previous_schema = None\<rparr>
      \<lparr>tenants = [], schemas = [], trace = []\<rparr>
    = (\<lparr>tenants = [(1, ''acme'')], schemas = [], trace = [RowSaved 1 ''acme'']\<rparr>,
       Inr \<lparr>pk = Some 1, schema_name = ''acme'', auto_create_schema = True,
              auto_drop_schema = False, previous_schema = None\<rparr>)
   \<and> tenant_create_schema
        \<lparr>create_outcome = FailsBeforeCreate DdlFailure, receivers = (\<lambda>kind. [\<lambda>t. None])\<rparr>
        \<lparr>pk = Some 1, schema_name = ''acme'', auto_create_schema = True,
              auto_drop_schema = False, previous_schema = None\<rparr> True True 1
        \<lparr>tenants = [(1, ''acme'')], schemas = [], trace = [RowSaved 1 ''acme'']\<rparr>
    = (\<lparr>tenants = [(1, ''acme'')], schemas = [],
         trace = [RowSaved 1 ''acme'', DdlCreate ''acme'']\<rparr>, Inl DdlFailure)
   \<and> trace (fst (tenant_save
        \<lparr>create_outcome = FailsBeforeCreate DdlFailure, receivers = (\<lambda>kind. [\<lambda>t. None])\<rparr> 1
        \<lparr>pk = None, schema_name = ''acme'', auto_create_schema = True, auto_drop_schema = False,
           previous_schema = None\<rparr>
        \<lparr>tenants = [], schemas = [], trace = []\<rparr>))
    = [RowSaved 1 ''acme'', DdlCreate ''acme'',
       Published PreDrop \<lparr>pk = Some 1, schema_name = ''acme'', auto_create_schema = True,
                           auto_drop_schema = False, previous_schema = None\<rparr> [None],
       DdlDrop ''acme'', RowDeleted 1]"
  using cleanup_emits_pre_drop_first
    [of "\<lparr>pk = None, schema_name = ''acme'', auto_create_schema = True, auto_drop_schema = False,
           previous_schema = None\<rparr>"
        "\<lparr>tenants = [], schemas = [], trace = []\<rparr>"
        "\<lparr>tenants = [(1, ''acme'')], schemas = [], trace = [RowSaved 1 ''acme'']\<rparr>"
        "\<lparr>pk = Some 1, schema_name = ''acme'', auto_create_schema = True,
              auto_drop_schema = False, previous_schema = None\<rparr>"
        "\<lparr>create_outcome = FailsBeforeCreate DdlFailure, receivers = (\<lambda>kind. [\<lambda>t. None])\<rparr>" 1
        "\<lparr>tenants = [(1, ''acme'')], schemas = [],
         trace = [RowSaved 1 ''acme'', DdlCreate ''acme'']\<rparr>" DdlFailure]
  by (simp add: tev)

text \<open>
  Claim C6. A tenant row exists, its namespace does not, and its type creates
  namespaces automatically. Saving the record attempts the creation; when that raises
  \<open>e\<close>, \<open>save\<close> raises \<open>e\<close>, the row is still in the table under its key, the namespace
  does not exist, and the call did exactly three things: the row write, the creation
  attempt and the drop of the namespace (no row was deleted).
\<close>

theorem sync_failure_preserves_record:
  assumes existing: "pk self = Some k" "map_of (tenants w) k = Some old"
    and auto: "auto_create_schema self"
    and missing: "\<not> schema_exists (schema_name self) w"
    and saved: "tenant_model_save self w = (w1, Inr self1)"
    and fails: "tenant_create_schema en self1 True True v w1 = (w2, Inl e)"
  shows "snd (tenant_save en v self w) = Inl e
         \<and> map_of (tenants (fst (tenant_save en v self w))) k = Some (schema_name self)
         \<and> \<not> schema_exists (schema_name self) (fst (tenant_save en v self w))
         \<and> trace (fst (tenant_save en v self w)) =
             trace w @ [RowSaved k (schema_name self), DdlCreate (schema_name self),
                        DdlDrop (schema_name self)]"
proof -
  note m = tenant_model_save_ok [OF saved]
  have s1: "pk self1 = Some k" "schema_name self1 = schema_name self" "auto_create_schema self1"
    using m(1) existing(1) auto by (simp_all add: assign_pk_def)
  have w1: "w1 = w\<lparr>tenants := AList.update k (schema_name self) (tenants w),
                   trace := trace w @ [RowSaved k (schema_name self)]\<rparr>"
    using m(2) existing(1) by (simp add: assign_pk_def)
  have miss1: "\<not> schema_exists (schema_name self1) w1"
    using missing by (simp add: w1 s1 schema_exists_def)
  have c: "create_and_announce en v self1 w1 = (w2, Inl e)"
    using fails by (simp add: create_and_announce_fails)
  have r: "tenant_save en v self w =
             (w2\<lparr>schemas := removeAll (schema_name self) (schemas w2),
                 trace := trace w2 @ [DdlDrop (schema_name self)]\<rparr>, Inl e)"
    using saved existing(1) s1 miss1 c
    by (simp add: tenant_save_def Let_def ops tenant_drop_schema_def drop_schema_def)
  from create_schema_fails [OF fails [unfolded tenant_create_schema_def]] miss1
  have tr: "trace w2 = trace w1 @ [DdlCreate (schema_name self)]" and t2: "tenants w2 = tenants w1"
    by (auto simp: s1)
  show ?thesis
    by (simp add: r tr t2 w1 update_conv' schema_exists_def)
qed

text \<open>The stored tenant 4, \<open>acme\<close>, without its namespace.\<close>

theorem sync_failure_preserves_record_witness:
  "map_of (tenants \<lparr>tenants = [(4, ''acme'')], schemas = [], trace = []\<rparr>) 4 = Some ''acme''
   \<and> \<not> schema_exists ''acme'' \<lparr>tenants = [(4, ''acme'')], schemas = [], trace = []\<rparr>
   \<and> tenant_save \<lparr>create_outcome = FailsAfterCreate DdlFailure, receivers = (\<lambda>kind. [])\<rparr> 1
        \<lparr>pk = Some 4, schema_name = ''acme'', auto_create_schema = True, auto_drop_schema = False,
           previous_schema = None\<rparr>
        \<lparr>tenants = [(4, ''acme'')], schemas = [], trace = []\<rparr>
    = (\<lparr>tenants = [(4, ''acme'')], schemas = [],
         trace = [RowSaved 4 ''acme'', DdlCreate ''acme'', DdlDrop ''acme'']\<rparr>, Inl DdlFailure)"
  using sync_failure_preserves_record
    [of "\<lparr>pk = Some 4, schema_name = ''acme'', auto_create_schema = True, auto_drop_schema = False,
           previous_schema = None\<rparr>" 4
        "\<lparr>tenants = [(4, ''acme'')], schemas = [], trace = []\<rparr>" "''acme''"
        "\<lparr>tenants = [(4, ''acme'')], schemas = [], trace = [RowSaved 4 ''acme'']\<rparr>"
        "\<lparr>pk = Some 4, schema_name = ''acme'', auto_create_schema = True, auto_drop_schema = False,
           previous_schema = None\<rparr>"
        "\<lparr>create_outcome = FailsAfterCreate DdlFailure, receivers = (\<lambda>kind. [])\<rparr>" 1
        "\<lparr>tenants = [(4, ''acme'')], schemas = [''acme''],
          trace = [RowSaved 4 ''acme'', DdlCreate ''acme'']\<rparr>" DdlFailure]
  by (simp add: tev)

text \<open>
  Claim C7, with \<open>send\<close> as the spec describes it. Whatever the receivers connected
  to the signals answer, a \<open>save\<close> whose row write succeeds and whose namespace (missing
  before the call) is created without failure returns normally: the row stays, the
  namespace exists when the type creates it, no compensating drop or deletion is
  made, and the publication is the last thing the call does, with every receiver's
  answer on record.
\<close>

theorem subscriber_failure_is_not_lifecycle_failure:
  assumes saved: "tenant_model_save self w = (w1, Inr self1)"
    and completes: "create_outcome en = Completes"
    and missing: "\<not> schema_exists (schema_name self) w"
  shows "snd (tenant_save en v self w) = Inr self1
         \<and> tenants (fst (tenant_save en v self w)) = tenants w1
         \<and> (auto_create_schema self \<longrightarrow> schema_exists (schema_name self) (fst (tenant_save en v self w)))
         \<and> filter is_cleanup (trace (fst (tenant_save en v self w))) = filter is_cleanup (trace w)
         \<and> (pk self = None \<or> auto_create_schema self \<longrightarrow>
              last (trace (fst (tenant_save en v self w))) =
                Published (if auto_create_schema self then PostSync else NeedsSync) self1
                  (map (\<lambda>h. h self1) (receivers en (if auto_create_schema self then PostSync else NeedsSync))))"
proof -
  note m = tenant_model_save_ok [OF saved]
  have s1: "schema_name self1 = schema_name self" "auto_create_schema self1 = auto_create_schema self"
    using m(1) by simp_all
  have miss1: "\<not> schema_exists (schema_name self) w1"
    using missing by (simp add: m(2) schema_exists_def)
  have tr1: "filter is_cleanup (trace w1) = filter is_cleanup (trace w)"
    by (simp add: m(2))
  have c: "tenant_create_schema en self1 True True v w1 =
             (w1\<lparr>schemas := List.insert (schema_name self) (schemas w1),
                 trace := trace w1 @ [DdlCreate (schema_name self)]\<rparr>, Inr True)"
    using miss1 completes by (simp add: tenant_create_schema_def create_schema_def s1)
  note a = create_and_announce_ok [OF c]
  show ?thesis
  proof (cases "auto_create_schema self")
    case True
    then have "tenant_save en v self w =
        (w1\<lparr>schemas := List.insert (schema_name self) (schemas w1),
            trace := trace w1 @ [DdlCreate (schema_name self),
               Published PostSync self1 (map (\<lambda>h. h self1) (receivers en PostSync))]\<rparr>, Inr self1)"
      using saved a miss1 s1 by (simp add: tenant_save_def Let_def ops)
    with True tr1 show ?thesis by (simp add: schema_exists_def)
  next
    case False
    show ?thesis
    proof (cases "pk self = None")
      case True
      with False have "tenant_save en v self w =
        (w1\<lparr>trace := trace w1 @ [Published NeedsSync self1 (map (\<lambda>h. h self1) (receivers en NeedsSync))]\<rparr>,
         Inr self1)"
        using saved s1 by (simp add: tenant_save_def Let_def ops send_def serializable_fields_def)
      with False True tr1 show ?thesis by simp
    next
      case nn: False
      then obtain k where k: "pk self = Some k" by auto
      have "tenant_save en v self w = (w1, Inr self1)"
        using saved s1 False by (simp add: tenant_save_def Let_def ops k)
      with False k tr1 show ?thesis by simp
    qed
  qed
qed

text \<open>A receiver that raises on every signal.\<close>

theorem subscriber_failure_is_not_lifecycle_failure_witness:
  "create_outcome \<lparr>create_outcome = Completes, receivers = (\<lambda>kind. [\<lambda>t. Some ValueError])\<rparr> = Completes
   \<and> \<not> schema_exists ''acme'' \<lparr>tenants = [], schemas = [], trace = []\<rparr>
   \<and> tenant_save \<lparr>create_outcome = Completes, receivers = (\<lambda>kind. [\<lambda>t. Some ValueError])\<rparr> 1
        \<lparr>pk = None, schema_name = ''acme'', auto_create_schema = True, auto_drop_schema = False,
           previous_schema = None\<rparr>
        \<lparr>tenants = [], schemas = [], trace = []\<rparr>
    = (\<lparr>tenants = [(1, ''acme'')], schemas = [''acme''],
         trace = [RowSaved 1 ''acme'', DdlCreate ''acme'',
                  Published PostSync \<lparr>pk = Some 1, schema_name = ''acme'', auto_create_schema = True,
                                       auto_drop_schema = False, previous_schema = None\<rparr>
                    [Some ValueError]]\<rparr>,
       Inr \<lparr>pk = Some 1, schema_name = ''acme'', auto_create_schema = True,
              auto_drop_schema = False, previous_schema = None\<rparr>)"
  using subscriber_failure_is_not_lifecycle_failure
    [of "\<lparr>pk = None, schema_name = ''acme'', auto_create_schema = True, auto_drop_schema = False,
           previous_schema = None\<rparr>"
        "\<lparr>tenants = [], schemas = [], trace = []\<rparr>"
        "\<lparr>tenants = [(1, ''acme'')], schemas = [], trace = [RowSaved 1 ''acme'']\<rparr>"
        "\<lparr>pk = Some 1, schema_name = ''acme'', auto_create_schema = True,
              auto_drop_schema = False, previous_schema = None\<rparr>"
        "\<lparr>create_outcome = Completes, receivers = (\<lambda>kind. [\<lambda>t. Some ValueError])\<rparr>" 1]
  by (simp add: tev)

lemmas vev = tenant_full_clean_def run_validators_def schema_name_validators_def
  check_schema_name_def max_length_validator_def is_valid_schema_name_def is_valid_identifier_def
  is_letter_def is_digit_def

text \<open>
  Claim C8, as the code has it. The naming rule sits in the validators of the
  \<open>schema_name\<close> field: validating a tenant whose name breaks the rule raises a
  validation error and leaves table, namespaces and trace untouched. \<open>save\<close> runs no
  validator: for a new tenant of a type that does not create namespaces, with a name
  the database accepts (at most 63 characters, not taken), it returns normally, the
  row is stored and no DDL is issued.
\<close>

theorem naming_rule_checked_by_validation_not_by_save:
  assumes bad: "\<not> is_valid_schema_name reserved (schema_name self)"
  shows "tenant_full_clean reserved self w = (w, Inl ValidationError)
         \<and> (pk self = None \<and> \<not> auto_create_schema self \<and> length (schema_name self) \<le> 63
              \<and> schema_name self \<notin> snd ` set (tenants w) \<longrightarrow>
             snd (tenant_save en v self w) = Inr (self\<lparr>pk := Some (fresh_pk (tenants w))\<rparr>)
             \<and> map_of (tenants (fst (tenant_save en v self w))) (fresh_pk (tenants w))
                 = Some (schema_name self)
             \<and> filter is_ddl (trace (fst (tenant_save en v self w))) = filter is_ddl (trace w))"
proof -
  have 1: "tenant_full_clean reserved self w = (w, Inl ValidationError)"
    using bad
    by (simp add: tenant_full_clean_def run_validators_def schema_name_validators_def
        check_schema_name_def)
  have 2: "snd (tenant_save en v self w) = Inr (self\<lparr>pk := Some (fresh_pk (tenants w))\<rparr>)
             \<and> map_of (tenants (fst (tenant_save en v self w))) (fresh_pk (tenants w))
                 = Some (schema_name self)
             \<and> filter is_ddl (trace (fst (tenant_save en v self w))) = filter is_ddl (trace w)"
    if h: "pk self = None" "\<not> auto_create_schema self" "length (schema_name self) \<le> 63"
      "schema_name self \<notin> snd ` set (tenants w)"
  proof -
    have u: "\<not> list_ex (\<lambda>(k, n). n = schema_name self \<and> Some k \<noteq> pk self) (tenants w)"
      using h(4) by (force simp: list_ex_iff)
    have "tenant_model_save self w =
        (w\<lparr>tenants := AList.update (fresh_pk (tenants w)) (schema_name self) (tenants w),
           trace := trace w @ [RowSaved (fresh_pk (tenants w)) (schema_name self)]\<rparr>,
         Inr (self\<lparr>pk := Some (fresh_pk (tenants w))\<rparr>))"
      using h(1,3) u by (simp add: tenant_model_save_def Let_def assign_pk_def)
    then show ?thesis
      using h(1,2)
      by (simp add: tenant_save_def Let_def ops send_def serializable_fields_def update_conv')
  qed
  from 1 2 show ?thesis by blast
qed

text \<open>The rule at work: \<open>pg_temp\<close>, \<open>1acme\<close> and the reserved \<open>public\<close> are refused,
  \<open>acme_1\<close> is accepted.\<close>

theorem naming_rule_checked_by_validation_not_by_save_witness:
  "\<not> is_valid_schema_name [''public''] ''pg_temp''
   \<and> tenant_full_clean [''public'']
        \<lparr>pk = None, schema_name = ''pg_temp'', auto_create_schema = False, auto_drop_schema = False,
           previous_schema = None\<rparr>
        \<lparr>tenants = [], schemas = [], trace = []\<rparr>
      = (\<lparr>tenants = [], schemas = [], trace = []\<rparr>, Inl ValidationError)
   \<and> is_valid_schema_name [''public''] ''acme_1''
   \<and> \<not> is_valid_schema_name [''public''] ''1acme''
   \<and> \<not> is_valid_schema_name [''public''] ''public''"
  using naming_rule_checked_by_validation_not_by_save
    [of "[''public'']"
        "\<lparr>pk = None, schema_name = ''pg_temp'', auto_create_schema = False, auto_drop_schema = False,
           previous_schema = None\<rparr>"
        "\<lparr>tenants = [], schemas = [], trace = []\<rparr>"]
  by (simp add: vev)

text \<open>
  Claim C8 as stated fails: a new tenant named \<open>pg_temp\<close>, of a type that does not
  create namespaces, is saved without any error; the row is in the table.
\<close>

theorem unvalidated_save_counterexample:
  "\<not> is_valid_schema_name [''public''] ''pg_temp''
   \<and> tenant_save \<lparr>create_outcome = Completes, receivers = (\<lambda>kind. [])\<rparr> 1
        \<lparr>pk = None, schema_name = ''pg_temp'', auto_create_schema = False, auto_drop_schema = False,
           previous_schema = None\<rparr>
        \<lparr>tenants = [], schemas = [], trace = []\<rparr>
    = (\<lparr>tenants = [(1, ''pg_temp'')], schemas = [],
         trace = [RowSaved 1 ''pg_temp'',
                  Published NeedsSync \<lparr>pk = Some 1, schema_name = ''pg_temp'',
                     auto_create_schema = False, auto_drop_schema = False, previous_schema = None\<rparr> []]\<rparr>,
       Inr \<lparr>pk = Some 1, schema_name = ''pg_temp'', auto_create_schema = False,
              auto_drop_schema = False, previous_schema = None\<rparr>)"
  by (simp add: tev vev)

section \<open>Properties of the scoped activation\<close>

lemmas sess = with_tenant_def tenant_enter_def tenant_exit_def activate_def set_schema_def pass_def Let_def

lemma enter_activates:
  "conn_schema_name (snd (tenant_enter (self, c))) = schema_name self"
  by (simp add: sess)

text \<open>
  A scope on a tenant activates the tenant's namespace and, when its body leaves the
  attribute \<open>previous_schema\<close> of the tenant object as \<open>__enter__\<close> set it, ends
  with the namespace that was active at entry, on normal return and on an exception
  alike; the body's result or exception is handed on.
\<close>

theorem scoped_activation_restores:
  assumes b: "body (tenant_enter (self, c)) = ((self1, c1), r)"
    and keep: "previous_schema self1 = previous_schema (fst (tenant_enter (self, c)))"
  shows "conn_schema_name (snd (tenant_enter (self, c))) = schema_name self
         \<and> with_tenant body (self, c) = ((self1, c1\<lparr>conn_schema_name := conn_schema_name c\<rparr>), r)"
proof -
  have p: "previous_schema self1 = Some (conn_schema_name c)"
    using keep by (simp add: tenant_enter_def Let_def)
  have "tenant_exit (self1, c1) = ((self1, c1\<lparr>conn_schema_name := conn_schema_name c\<rparr>), Inr ())"
    by (simp add: tenant_exit_def p set_schema_def)
  with b show ?thesis by (simp add: with_tenant_def enter_activates)
qed

text \<open>A body that raises under \<open>public\<close>.\<close>

theorem scoped_activation_restores_witness:
  "with_tenant (\<lambda>s. (s, Inl ValueError))
      (\<lparr>pk = Some 1, schema_name = ''tenant1'', auto_create_schema = True,
         auto_drop_schema = False, previous_schema = None\<rparr>, \<lparr>conn_schema_name = ''public''\<rparr>)
    = ((\<lparr>pk = Some 1, schema_name = ''tenant1'', auto_create_schema = True,
         auto_drop_schema = False, previous_schema = Some ''public''\<rparr>,
        \<lparr>conn_schema_name = ''public''\<rparr>), Inl ValueError :: error + unit)"
  using scoped_activation_restores
    [of "\<lambda>s. (s, Inl ValueError :: error + unit)"
        "\<lparr>pk = Some 1, schema_name = ''tenant1'', auto_create_schema = True,
         auto_drop_schema = False, previous_schema = None\<rparr>" "\<lparr>conn_schema_name = ''public''\<rparr>"
        "\<lparr>pk = Some 1, schema_name = ''tenant1'', auto_create_schema = True,
         auto_drop_schema = False, previous_schema = Some ''public''\<rparr>"
        "\<lparr>conn_schema_name = ''tenant1''\<rparr>" "Inl ValueError"]
  by (simp add: sess)

text \<open>
  Claim C4 at the input where the code breaks it: \<open>with tenant: with tenant: pass\<close>,
  entered under \<open>public\<close>. The inner \<open>__enter__\<close> overwrites the one attribute in
  which the outer \<open>__enter__\<close> remembered \<open>public\<close>, so the outer scope ends with the
  tenant's namespace still active.
\<close>

theorem nested_scope_not_restored:
  "with_tenant (with_tenant pass)
      (\<lparr>pk = Some 1, schema_name = ''tenant1'', auto_create_schema = True,
         auto_drop_schema = False, previous_schema = None\<rparr>, \<lparr>conn_schema_name = ''public''\<rparr>)
    = ((\<lparr>pk = Some 1, schema_name = ''tenant1'', auto_create_schema = True,
         auto_drop_schema = False, previous_schema = Some ''tenant1''\<rparr>,
        \<lparr>conn_schema_name = ''tenant1''\<rparr>), Inr ())"
  by (simp add: sess)

end
